theory Spec2Isabelle
  imports Main
begin

unbundle bit_operations_syntax

section \<open>Deolang: the interpreter of \<open>deolangc.py\<close> and the grid of \<open>gridmap.py\<close>\<close>

text \<open>
  The development embeds the class \<open>Interpreter\<close> (the text held in
  \<open>INTERPRETER_SRC_RAW\<close> of \<open>deolangc.py\<close>), the class \<open>GridMap\<close> of
  \<open>deolang/gridmap.py\<close> and the three tables of \<open>CONSTANTS_SRC\<close>.

  Conventions of the embedding.
  \<^item> A Python \<open>str\<close> is the list of its code points (\<open>pystr\<close>); Python integers are
    \<open>int\<close>. Python's \<open>//\<close> and \<open>%\<close> are HOL's \<open>div\<close> and \<open>mod\<close> on \<open>int\<close>
    (both round towards minus infinity), \<open>&\<close>, \<open>|\<close>, \<open>^\<close>, \<open>~\<close> are \<open>AND\<close>, \<open>OR\<close>,
    \<open>XOR\<close>, \<open>NOT\<close> on \<open>int\<close>.
  \<^item> A grid cell is the empty string or a one-character string: this is all that the
    constructor of \<open>GridMap\<close> (\<open>list(line)\<close>), \<open>set_item(x, y, chr(val))\<close> and
    \<open>merge_grid\<close> ever store. A cell is therefore \<open>None\<close> (the string \<open>''\<close>) or
    \<open>Some c\<close> (the character with code point \<open>c\<close>).
  \<^item> A Python list used as a stack has its top at the tail, as in the source:
    \<open>append\<close> is \<open>xs @ [v]\<close>, \<open>pop()\<close> yields \<open>last xs\<close> and leaves \<open>butlast xs\<close>.
  \<^item> Every mutation is explicit state passing; every \<open>raise\<close> is a value. A handler
    that raises keeps the mutations it made before raising, so a raise carries the
    state it left behind.
  \<^item> What the interpreter asks of its environment during one step (the random
    direction, the clock, the answer of the input callback, the file read by \<open>M\<close>,
    the Unicode database beyond ASCII, a failing \<open>stdout\<close> or \<open>sleep\<close>, the digit
    limit of \<open>str\<close>) is a parameter of the step, the record \<open>host\<close>. Memory is
    unbounded.
\<close>

subsection \<open>Strings, characters, exceptions\<close>

type_synonym pystr = "nat list"
type_synonym cell = "nat option"
type_synonym grid = "cell list list"

datatype exn = ValueError | TypeError | AttributeError | IndexError | KeyError | OtherError

definition code_point :: "char \<Rightarrow> nat" where
  "code_point c = of_char c"

text \<open>\<open>chr(v)\<close> raises \<open>ValueError\<close> outside \<open>range(0x110000)\<close>; \<open>None\<close> is that raise.\<close>

definition py_chr :: "int \<Rightarrow> nat option" where
  "py_chr v = (if 0 \<le> v \<and> v \<le> 1114111 then Some (nat v) else None)"

text \<open>
  \<open>str.isdigit()\<close> and \<open>int(str)\<close> on one character. A character is a decimal digit
  (\<open>isdigit\<close> holds and \<open>int\<close> gives its value), a digit that \<open>int\<close> rejects with
  \<open>ValueError\<close> (superscripts and the like), or no digit. On ASCII this is fixed here;
  beyond ASCII it is the host's Unicode database.
\<close>

datatype digit_class = NotDigit | Decimal int | DigitOnly

text \<open>What the zero-argument input callback does when it is called.\<close>

datatype cb_result = CbStr pystr | CbInt int | CbOther | CbRaise

record host =
  h_unicode :: "nat \<Rightarrow> digit_class"
  h_random :: nat
  h_time :: int
  h_input :: cb_result
  h_file :: "pystr \<Rightarrow> grid option"
  h_stdout_fails :: bool
  h_sleep_fails :: "int \<Rightarrow> bool"
  h_max_str_digits :: "nat option"

definition digit_class_of :: "host \<Rightarrow> nat \<Rightarrow> digit_class" where
  "digit_class_of h c =
     (if c < 128 then (if 48 \<le> c \<and> c \<le> 57 then Decimal (int c - 48) else NotDigit)
      else h_unicode h c)"

definition isdigit :: "host \<Rightarrow> nat \<Rightarrow> bool" where
  "isdigit h c = (digit_class_of h c \<noteq> NotDigit)"

text \<open>\<open>str(n)\<close> for an integer: the decimal digits, with a minus sign when negative.\<close>

function str_nat :: "nat \<Rightarrow> pystr" where
  "str_nat n = (if n < 10 then [48 + n] else str_nat (n div 10) @ [48 + n mod 10])"
  by pat_completeness auto
termination
  by (relation "measure (\<lambda>n. n)") auto

definition str_int :: "int \<Rightarrow> pystr" where
  "str_int v = (if v < 0 then code_point CHR ''-'' # str_nat (nat (- v)) else str_nat (nat v))"

text \<open>
  \<open>str(n)\<close> raises \<open>ValueError\<close> when \<open>n\<close> has more decimal digits than the limit of
  the running interpreter (\<open>sys.get_int_max_str_digits()\<close>, 4300 by default from
  CPython 3.11 on; \<open>None\<close> where there is no limit).
\<close>

definition str_raises :: "host \<Rightarrow> int \<Rightarrow> bool" where
  "str_raises h v =
     (case h_max_str_digits h of
        None \<Rightarrow> False
      | Some m \<Rightarrow> m < length (str_nat (nat \<bar>v\<bar>)))"

subsection \<open>The tables \<open>DIRECTIONS\<close>, \<open>TURN_RIGHT\<close>, \<open>TURN_LEFT\<close>\<close>

type_synonym vec = "int \<times> int"

definition DIRECTIONS :: "(char \<times> vec) list" where
  "DIRECTIONS = [(CHR ''^'', (0, -1)), (CHR ''>'', (1, 0)), (CHR ''<'', (-1, 0)), (CHR ''V'', (0, 1))]"

definition TURN_RIGHT :: "(vec \<times> vec) list" where
  "TURN_RIGHT = [((0, -1), (1, 0)), ((1, 0), (0, 1)), ((-1, 0), (0, -1)), ((0, 1), (-1, 0))]"

definition TURN_LEFT :: "(vec \<times> vec) list" where
  "TURN_LEFT = [((0, -1), (-1, 0)), ((1, 0), (0, -1)), ((-1, 0), (0, 1)), ((0, 1), (1, 0))]"

text \<open>\<open>DIRECTIONS[k]\<close> for one of the four keys present.\<close>

definition direction_of :: "char \<Rightarrow> vec" where
  "direction_of k = (case map_of DIRECTIONS k of Some d \<Rightarrow> d | None \<Rightarrow> (0, 0))"

text \<open>
  \<open>random.choice(list(DIRECTIONS.values()))\<close>: the element at an index below the
  length of the list; the host supplies the index.
\<close>

definition random_choice :: "host \<Rightarrow> vec" where
  "random_choice h = map snd DIRECTIONS ! (h_random h mod length DIRECTIONS)"

subsection \<open>\<open>GridMap\<close>\<close>

text \<open>
  The grid is the field \<open>_map\<close>. The fields \<open>rows\<close> and \<open>cols\<close> are set by the
  constructor and again at the end of \<open>_ensure_size\<close>, the only method that changes
  the shape, always to \<open>len(_map)\<close> and \<open>len(_map[0])\<close>; they are the functions
  \<open>rows\<close> and \<open>cols\<close> here.
\<close>

definition rows :: "grid \<Rightarrow> nat" where
  "rows g = length g"

definition cols :: "grid \<Rightarrow> nat" where
  "cols g = (if rows g > 0 then length (g ! 0) else 0)"

definition grid_len :: "grid \<Rightarrow> nat" where
  "grid_len g = rows g * cols g"

text \<open>
  The constructor, from the lines of the text (after \<open>splitlines\<close> or \<open>readlines\<close>):
  trailing newlines are stripped from every line, and every row is padded with empty
  cells to the longest line.
\<close>

fun rstrip_nl :: "pystr \<Rightarrow> pystr" where
  "rstrip_nl s = rev (dropWhile (\<lambda>c. c = 10) (rev s))"

definition GridMap_init :: "pystr list \<Rightarrow> grid" where
  "GridMap_init lines =
     (let raw_grid = map rstrip_nl lines;
          n = (if raw_grid = [] then 0 else Max (set (map length raw_grid)))
      in map (\<lambda>row. map Some row @ replicate (n - length row) None) raw_grid)"

definition get_item :: "grid \<Rightarrow> int \<Rightarrow> int \<Rightarrow> cell" where
  "get_item g x y =
     (if 0 \<le> y \<and> y < int (length g) \<and> 0 \<le> x \<and> x < int (length (g ! nat y))
      then g ! nat y ! nat x else None)"

definition ensure_size :: "int \<Rightarrow> int \<Rightarrow> grid \<Rightarrow> grid" where
  "ensure_size w h g =
     (let current_h = int (length g);
          current_w = (if current_h > 0 then length (g ! 0) else 0);
          g1 = (if h > current_h
                then g @ replicate (nat (h - current_h)) (replicate current_w None)
                else g);
          g2 = (if w > int current_w
                then map (\<lambda>row. row @ replicate (nat (w - int (length row))) None) g1
                else g1)
      in g2)"

text \<open>
  \<open>self._map[y][x] = char\<close> with non-negative indices raises \<open>IndexError\<close> when an
  index is out of range.
\<close>

definition store_cell :: "grid \<Rightarrow> nat \<Rightarrow> nat \<Rightarrow> cell \<Rightarrow> grid option" where
  "store_cell g r c v =
     (if r < length g \<and> c < length (g ! r) then Some (g[r := (g ! r)[c := v]]) else None)"

definition set_item :: "grid \<Rightarrow> int \<Rightarrow> int \<Rightarrow> cell \<Rightarrow> exn + grid" where
  "set_item g x y v =
     (if x < 0 \<or> y < 0 then Inr g
      else (case store_cell (ensure_size (x + 1) (y + 1) g) (nat y) (nat x) v of
              None \<Rightarrow> Inl IndexError
            | Some g' \<Rightarrow> Inr g'))"

text \<open>
  Python indexing of a list of length \<open>n\<close> by any integer: a negative index counts
  from the end, and \<open>None\<close> is \<open>IndexError\<close>.
\<close>

definition py_index :: "nat \<Rightarrow> int \<Rightarrow> nat option" where
  "py_index n i =
     (if 0 \<le> i \<and> i < int n then Some (nat i)
      else if - int n \<le> i \<and> i < 0 then Some (nat (int n + i))
      else None)"

definition store_cell_py :: "grid \<Rightarrow> int \<Rightarrow> int \<Rightarrow> cell \<Rightarrow> grid option" where
  "store_cell_py g r c v =
     (case py_index (length g) r of
        None \<Rightarrow> None
      | Some r' \<Rightarrow> (case py_index (length (g ! r')) c of
                     None \<Rightarrow> None
                   | Some c' \<Rightarrow> Some (g[r' := (g ! r')[c' := v]])))"

text \<open>
  One pass of the inner loop body of \<open>merge_grid\<close> at overlay cell \<open>(r, c)\<close>. The
  accumulator is the grid so far, or \<open>Inl\<close> of the grid at the moment an exception
  left the loops (the writes made before it stay).
\<close>

definition merge_cell :: "grid \<Rightarrow> int \<Rightarrow> int \<Rightarrow> (grid + grid) \<Rightarrow> nat \<times> nat \<Rightarrow> (grid + grid)" where
  "merge_cell other x_offset y_offset acc rc =
     (case acc of
        Inl g \<Rightarrow> Inl g
      | Inr g \<Rightarrow>
          (let r = fst rc; c = snd rc in
           if c < length (other ! r) then
             (case other ! r ! c of
                None \<Rightarrow> Inr g
              | Some ch \<Rightarrow>
                  (case store_cell_py g (int r + y_offset) (int c + x_offset) (Some ch) of
                     None \<Rightarrow> Inl g
                   | Some g' \<Rightarrow> Inr g'))
           else Inl g))"

text \<open>
  \<open>merge_grid\<close>: the overlay is what the host finds under the file name (\<open>None\<close>
  when the constructor raises: an empty name, or no such file). The result is the
  returned boolean and the grid.
\<close>

definition merge_grid :: "host \<Rightarrow> grid \<Rightarrow> pystr \<Rightarrow> int \<Rightarrow> int \<Rightarrow> bool \<times> grid" where
  "merge_grid hst g other_grid_file x_offset y_offset =
     (case (if other_grid_file = [] then None else h_file hst other_grid_file) of
        None \<Rightarrow> (False, g)
      | Some other_map \<Rightarrow>
          (let h = length other_map;
               w = (if h > 0 then length (other_map ! 0) else 0);
               g1 = ensure_size (x_offset + int w) (y_offset + int h) g
           in (case foldl (merge_cell other_map x_offset y_offset) (Inr g1)
                      (concat (map (\<lambda>r. map (\<lambda>c. (r, c)) [0..<w]) [0..<h])) of
                 Inl g2 \<Rightarrow> (False, g2)
               | Inr g2 \<Rightarrow> (True, g2))))"

subsection \<open>The state of the \<open>Interpreter\<close>\<close>

text \<open>
  The field \<open>built_in_input\<close> holds \<open>None\<close>, a callable of the host, or (after
  \<open>set_input\<close>) a boolean. The fields \<open>x\<close> and \<open>y\<close> are \<open>ipx\<close> and \<open>ipy\<close>, the fields
  \<open>output\<close> and \<open>input\<close> are \<open>output_list\<close> and \<open>input_str\<close>.
\<close>

datatype callback = CbNone | CbFunction | CbBool bool

record interp =
  program :: "grid option"
  stack :: "int list"
  addition_stack :: "int list"
  output_list :: "pystr list"
  call_stack :: "(int \<times> int) list"
  heap :: "int \<rightharpoonup> int"
  ipx :: int
  ipy :: int
  direction :: vec
  ignore_mode :: bool
  string_mode :: bool
  input_str :: "pystr option"
  input_pointer :: int
  built_in_input :: callback

text \<open>
  A handler returns \<open>None\<close>, \<open>False\<close> or \<open>"JUMPED"\<close>, or raises. \<open>process_char\<close>
  returns a boolean, or lets an exception through to its caller.
\<close>

datatype ret = RNone | RFalse | RJumped

datatype outcome = Returned ret interp | Raised exn interp

datatype step = Result bool interp | Propagated exn interp

definition Interpreter_init :: "pystr option \<Rightarrow> callback \<Rightarrow> interp" where
  "Interpreter_init program_input build_in_input =
     \<lparr>program = None, stack = [], addition_stack = [], output_list = [], call_stack = [],
      heap = Map.empty, ipx = 0, ipy = 0, direction = (1, 0), ignore_mode = False,
      string_mode = False, input_str = program_input, input_pointer = 0,
      built_in_input = build_in_input\<rparr>"

text \<open>
  \<open>load_code\<close>, given the lines of the text: the empty text has no lines and makes the
  constructor raise \<open>ValueError\<close>; every other text has at least one line.
\<close>

definition load_code :: "pystr list \<Rightarrow> interp \<Rightarrow> exn + interp" where
  "load_code lines s =
     (if lines = [] then Inl ValueError else Inr (s\<lparr>program := Some (GridMap_init lines)\<rparr>))"

definition get_current_char :: "interp \<Rightarrow> cell" where
  "get_current_char s =
     (case program s of
        None \<Rightarrow> None
      | Some g \<Rightarrow> if grid_len g \<noteq> 0 then get_item g (ipx s) (ipy s) else None)"

definition get_output :: "interp \<Rightarrow> pystr" where
  "get_output s = concat (output_list s)"

record snapshot =
  snap_output :: pystr
  snap_stack :: "int list"
  snap_addition_stack :: "int list"
  snap_call_stack :: "(int \<times> int) list"
  snap_heap :: "int \<rightharpoonup> int"
  snap_position :: "int \<times> int"
  snap_direction :: vec
  snap_character :: cell
  snap_ignore_mode :: bool
  snap_string_mode :: bool
  snap_input :: "pystr option"
  snap_input_pointer :: int

definition get_information :: "interp \<Rightarrow> snapshot" where
  "get_information s =
     \<lparr>snap_output = get_output s, snap_stack = stack s,
      snap_addition_stack = addition_stack s, snap_call_stack = call_stack s,
      snap_heap = heap s, snap_position = (ipx s, ipy s), snap_direction = direction s,
      snap_character = get_current_char s, snap_ignore_mode = ignore_mode s,
      snap_string_mode = string_mode s, snap_input = input_str s,
      snap_input_pointer = input_pointer s\<rparr>"

definition reset :: "interp \<Rightarrow> interp" where
  "reset s =
     s\<lparr>stack := [], addition_stack := [], output_list := [], call_stack := [],
       heap := Map.empty, ignore_mode := False, string_mode := False,
       input_pointer := 0, ipx := 0, ipy := 0, direction := (1, 0)\<rparr>"

definition set_input :: "pystr \<Rightarrow> int \<Rightarrow> interp \<Rightarrow> interp" where
  "set_input input_data pointer_position s =
     s\<lparr>input_str := Some input_data, input_pointer := pointer_position,
       built_in_input := CbBool (if input_data \<noteq> [] then False else True)\<rparr>"

definition move :: "interp \<Rightarrow> interp" where
  "move s = s\<lparr>ipx := ipx s + fst (direction s), ipy := ipy s + snd (direction s)\<rparr>"

text \<open>\<open>list.pop()\<close> on a list that the caller has found non-empty.\<close>

definition pop :: "'a list \<Rightarrow> 'a \<times> 'a list" where
  "pop st = (last st, butlast st)"

definition push :: "int \<Rightarrow> interp \<Rightarrow> interp" where
  "push v s = s\<lparr>stack := stack s @ [v]\<rparr>"

text \<open>
  \<open>_pop_string\<close>, on the stack read from its top: the characters collected so far,
  and \<open>None\<close> with the stack left behind when \<open>chr\<close> raises.
\<close>

fun pop_string_loop :: "int list \<Rightarrow> pystr \<Rightarrow> pystr option \<times> int list" where
  "pop_string_loop [] chars = (Some chars, [])"
| "pop_string_loop (val # below) chars =
     (if val = 0 then (Some chars, below)
      else (case py_chr val of
              None \<Rightarrow> (None, below)
            | Some c \<Rightarrow> pop_string_loop below (chars @ [c])))"

definition pop_string :: "int list \<Rightarrow> pystr option \<times> int list" where
  "pop_string st = (case pop_string_loop (rev st) [] of (r, below) \<Rightarrow> (r, rev below))"

subsection \<open>The opcode handlers\<close>

type_synonym handler = "host \<Rightarrow> interp \<Rightarrow> outcome"

definition op_up :: handler where
  "op_up h s = Returned RNone (s\<lparr>direction := direction_of CHR ''^''\<rparr>)"

definition op_right :: handler where
  "op_right h s = Returned RNone (s\<lparr>direction := direction_of CHR ''>''\<rparr>)"

definition op_left :: handler where
  "op_left h s = Returned RNone (s\<lparr>direction := direction_of CHR ''<''\<rparr>)"

definition op_down :: handler where
  "op_down h s = Returned RNone (s\<lparr>direction := direction_of CHR ''V''\<rparr>)"

definition op_random_dir :: handler where
  "op_random_dir h s = Returned RNone (s\<lparr>direction := random_choice h\<rparr>)"

definition op_add :: handler where
  "op_add h s =
     (if length (stack s) < 2 then Returned RNone s
      else (let (b, st1) = pop (stack s); (a, st2) = pop st1
            in Returned RNone (s\<lparr>stack := st2 @ [b + a]\<rparr>)))"

definition op_sub :: handler where
  "op_sub h s =
     (if length (stack s) < 2 then Returned RNone s
      else (let (b, st1) = pop (stack s); (a, st2) = pop st1
            in Returned RNone (s\<lparr>stack := st2 @ [a - b]\<rparr>)))"

definition op_mul :: handler where
  "op_mul h s =
     (if length (stack s) < 2 then Returned RNone s
      else (let (b, st1) = pop (stack s); (a, st2) = pop st1
            in Returned RNone (s\<lparr>stack := st2 @ [b * a]\<rparr>)))"

definition op_div :: handler where
  "op_div h s =
     (if length (stack s) < 2 then Returned RNone s
      else (let (b, st1) = pop (stack s); (a, st2) = pop st1
            in Returned RNone (s\<lparr>stack := st2 @ [if b = 0 then 0 else a div b]\<rparr>)))"

definition op_mod :: handler where
  "op_mod h s =
     (if length (stack s) < 2 then Returned RNone s
      else (let (b, st1) = pop (stack s); (a, st2) = pop st1
            in Returned RNone (s\<lparr>stack := st2 @ [if b = 0 then 0 else a mod b]\<rparr>)))"

definition op_and :: handler where
  "op_and h s =
     (if length (stack s) < 2 then Returned RNone s
      else (let (b, st1) = pop (stack s); (a, st2) = pop st1
            in Returned RNone (s\<lparr>stack := st2 @ [b AND a]\<rparr>)))"

definition op_or :: handler where
  "op_or h s =
     (if length (stack s) < 2 then Returned RNone s
      else (let (b, st1) = pop (stack s); (a, st2) = pop st1
            in Returned RNone (s\<lparr>stack := st2 @ [b OR a]\<rparr>)))"

definition op_xor :: handler where
  "op_xor h s =
     (if length (stack s) < 2 then Returned RNone s
      else (let (b, st1) = pop (stack s); (a, st2) = pop st1
            in Returned RNone (s\<lparr>stack := st2 @ [b XOR a]\<rparr>)))"

definition op_not :: handler where
  "op_not h s =
     (if stack s = [] then Returned RNone s
      else (let (a, st1) = pop (stack s)
            in Returned RNone (s\<lparr>stack := st1 @ [NOT a]\<rparr>)))"

definition op_eq :: handler where
  "op_eq h s =
     (if length (stack s) < 2 then Returned RNone s
      else (let (b, st1) = pop (stack s); (a, st2) = pop st1
            in Returned RNone (s\<lparr>stack := st2 @ [if b = a then 1 else 0]\<rparr>)))"

definition op_less :: handler where
  "op_less h s =
     (if length (stack s) < 2 then Returned RNone s
      else (let (b, st1) = pop (stack s); (a, st2) = pop st1
            in Returned RNone (s\<lparr>stack := st2 @ [if a < b then 1 else 0]\<rparr>)))"

definition op_greater :: handler where
  "op_greater h s =
     (if length (stack s) < 2 then Returned RNone s
      else (let (b, st1) = pop (stack s); (a, st2) = pop st1
            in Returned RNone (s\<lparr>stack := st2 @ [if a > b then 1 else 0]\<rparr>)))"

definition op_pop :: handler where
  "op_pop h s =
     (if stack s \<noteq> [] then Returned RNone (s\<lparr>stack := snd (pop (stack s))\<rparr>)
      else Returned RNone s)"

definition op_swap :: handler where
  "op_swap h s =
     (if length (stack s) < 2 then Returned RNone s
      else (let (b, st1) = pop (stack s); (a, st2) = pop st1
            in Returned RNone (s\<lparr>stack := st2 @ [b, a]\<rparr>)))"

definition op_copy :: handler where
  "op_copy h s =
     (if stack s \<noteq> [] then Returned RNone (s\<lparr>stack := stack s @ [last (stack s)]\<rparr>)
      else Returned RNone s)"

definition op_move_to_aux :: handler where
  "op_move_to_aux h s =
     (if stack s \<noteq> []
      then (let (v, st1) = pop (stack s)
            in Returned RNone (s\<lparr>stack := st1, addition_stack := addition_stack s @ [v]\<rparr>))
      else Returned RNone s)"

definition op_move_from_aux :: handler where
  "op_move_from_aux h s =
     (if addition_stack s \<noteq> []
      then (let (v, aux1) = pop (addition_stack s)
            in Returned RNone (s\<lparr>addition_stack := aux1, stack := stack s @ [v]\<rparr>))
      else Returned RNone s)"

definition op_rotate_left :: handler where
  "op_rotate_left h s =
     (if length (stack s) > 1
      then (let (v, st1) = pop (stack s) in Returned RNone (s\<lparr>stack := v # st1\<rparr>))
      else Returned RNone s)"

definition op_rotate_right :: handler where
  "op_rotate_right h s =
     (if length (stack s) > 1
      then Returned RNone (s\<lparr>stack := tl (stack s) @ [hd (stack s)]\<rparr>)
      else Returned RNone s)"

definition op_len :: handler where
  "op_len h s = Returned RNone (s\<lparr>stack := stack s @ [int (length (stack s))]\<rparr>)"

definition op_clear :: handler where
  "op_clear h s = Returned RNone (s\<lparr>stack := []\<rparr>)"

text \<open>
  \<open>N\<close> and \<open>A\<close> append to \<open>output\<close> and then write to \<open>stdout\<close>; \<open>str\<close> and
  \<open>chr\<close> raise after the pop, before anything is appended.
\<close>

definition op_print_num :: handler where
  "op_print_num h s =
     (if stack s \<noteq> []
      then (let (v, st1) = pop (stack s)
            in if str_raises h v then Raised ValueError (s\<lparr>stack := st1\<rparr>)
               else (let s1 = s\<lparr>stack := st1, output_list := output_list s @ [str_int v]\<rparr>
                     in if h_stdout_fails h then Raised OtherError s1 else Returned RNone s1))
      else Returned RNone s)"

definition op_print_char :: handler where
  "op_print_char h s =
     (if stack s \<noteq> []
      then (let (v, st1) = pop (stack s)
            in (case py_chr v of
                  None \<Rightarrow> Raised ValueError (s\<lparr>stack := st1\<rparr>)
                | Some c \<Rightarrow>
                    (let s1 = s\<lparr>stack := st1, output_list := output_list s @ [[c]]\<rparr>
                     in if h_stdout_fails h then Raised OtherError s1 else Returned RNone s1)))
      else Returned RNone s)"

text \<open>
  \<open>I\<close>. Without a pre-supplied input (\<open>None\<close> or the empty string) a truthy
  \<open>built_in_input\<close> is called: calling the boolean \<open>True\<close> raises \<open>TypeError\<close>.
  With one, \<open>self.input[self.input_pointer]\<close> is Python indexing.
\<close>

definition call_built_in_input :: handler where
  "call_built_in_input h s =
     (case built_in_input s of
        CbNone \<Rightarrow> Returned RNone s
      | CbBool False \<Rightarrow> Returned RNone s
      | CbBool True \<Rightarrow> Raised TypeError s
      | CbFunction \<Rightarrow>
          (case h_input h of
             CbRaise \<Rightarrow> Raised OtherError s
           | CbStr val \<Rightarrow> if val \<noteq> [] then Returned RNone (push (int (hd val)) s)
                          else Returned RNone s
           | CbInt val \<Rightarrow> Returned RNone (push val s)
           | CbOther \<Rightarrow> Returned RNone s))"

definition op_input :: handler where
  "op_input h s =
     (case input_str s of
        None \<Rightarrow> call_built_in_input h s
      | Some inp \<Rightarrow>
          if inp = [] then call_built_in_input h s
          else if input_pointer s < int (length inp) then
            (case py_index (length inp) (input_pointer s) of
               None \<Rightarrow> Raised IndexError s
             | Some i \<Rightarrow>
                 Returned RNone
                   ((push (int (inp ! i)) s)\<lparr>input_pointer := input_pointer s + 1\<rparr>))
          else Returned RNone (push (- 1) s))"

definition op_heap_store :: handler where
  "op_heap_store h s =
     (if length (stack s) < 2 then Returned RNone s
      else (let (addr, st1) = pop (stack s); (val, st2) = pop st1
            in Returned RNone (s\<lparr>stack := st2, heap := (heap s)(addr \<mapsto> val)\<rparr>)))"

definition op_heap_load :: handler where
  "op_heap_load h s =
     (if stack s = [] then Returned RNone s
      else (let (addr, st1) = pop (stack s)
            in Returned RNone
                 (s\<lparr>stack := st1 @ [case heap s addr of None \<Rightarrow> 0 | Some v \<Rightarrow> v]\<rparr>)))"

definition op_grid_get :: handler where
  "op_grid_get h s =
     (if length (stack s) < 2 then Returned RNone s
      else (let (y, st1) = pop (stack s); (x, st2) = pop st1
            in (case program s of
                  None \<Rightarrow> Raised AttributeError (s\<lparr>stack := st2\<rparr>)
                | Some g \<Rightarrow>
                    Returned RNone
                      (s\<lparr>stack := st2 @ [case get_item g x y of None \<Rightarrow> 0 | Some c \<Rightarrow> int c]\<rparr>))))"

definition op_grid_put :: handler where
  "op_grid_put h s =
     (if length (stack s) < 3 then Returned RNone s
      else (let (y, st1) = pop (stack s); (x, st2) = pop st1; (val, st3) = pop st2
            in (case program s of
                  None \<Rightarrow> Raised AttributeError (s\<lparr>stack := st3\<rparr>)
                | Some g \<Rightarrow>
                    (case py_chr val of
                       None \<Rightarrow> Raised ValueError (s\<lparr>stack := st3\<rparr>)
                     | Some c \<Rightarrow>
                         (case set_item g x y (Some c) of
                            Inl e \<Rightarrow> Raised e (s\<lparr>stack := st3\<rparr>)
                          | Inr g' \<Rightarrow> Returned RNone (s\<lparr>stack := st3, program := Some g'\<rparr>))))))"

definition op_jump :: handler where
  "op_jump h s =
     (if length (stack s) < 2 then Returned RNone s
      else (let (y, st1) = pop (stack s); (x, st2) = pop st1
            in Returned RJumped (s\<lparr>stack := st2, ipy := y, ipx := x\<rparr>)))"

definition op_func_call :: handler where
  "op_func_call h s =
     (if length (stack s) < 2 then Returned RNone s
      else (let (y, st1) = pop (stack s); (x, st2) = pop st1
            in Returned RJumped
                 (s\<lparr>stack := st2,
                    call_stack := call_stack s @ [(ipx s + fst (direction s), ipy s + snd (direction s))],
                    ipx := x, ipy := y\<rparr>)))"

definition op_return :: handler where
  "op_return h s =
     (if call_stack s \<noteq> []
      then (let (addr, cs1) = pop (call_stack s)
            in Returned RJumped (s\<lparr>call_stack := cs1, ipx := fst addr, ipy := snd addr\<rparr>))
      else Returned RNone s)"

definition op_merge :: handler where
  "op_merge h s =
     (if length (stack s) < 2 then Returned RNone s
      else (let (y, st1) = pop (stack s); (x, st2) = pop st1
            in (case pop_string st2 of
                  (None, st3) \<Rightarrow> Raised ValueError (s\<lparr>stack := st3\<rparr>)
                | (Some filename, st3) \<Rightarrow>
                    (case program s of
                       None \<Rightarrow> Raised AttributeError (s\<lparr>stack := st3\<rparr>)
                     | Some g \<Rightarrow>
                         Returned RNone
                           (s\<lparr>stack := st3, program := Some (snd (merge_grid h g filename x y))\<rparr>)))))"

definition op_time :: handler where
  "op_time h s = Returned RNone (push (h_time h) s)"

text \<open>\<open>time.sleep\<close> raises \<open>ValueError\<close> on a negative length, and where the host says so.\<close>

definition op_wait :: handler where
  "op_wait h s =
     (if stack s \<noteq> []
      then (let (n, st1) = pop (stack s)
            in if n < 0 then Raised ValueError (s\<lparr>stack := st1\<rparr>)
               else if h_sleep_fails h n then Raised OtherError (s\<lparr>stack := st1\<rparr>)
               else Returned RNone (s\<lparr>stack := st1\<rparr>))
      else Returned RNone s)"

definition op_vertical_mirror :: handler where
  "op_vertical_mirror h s =
     (if direction s = (-1, 0) \<or> direction s = (1, 0)
      then Returned RNone (s\<lparr>ignore_mode := True\<rparr>)
      else Returned RNone s)"

definition op_horizontal_mirror :: handler where
  "op_horizontal_mirror h s =
     (if direction s = (0, -1) \<or> direction s = (0, 1)
      then Returned RNone (s\<lparr>ignore_mode := True\<rparr>)
      else Returned RNone s)"

text \<open>\<open>TURN_LEFT[self.direction]\<close> raises \<open>KeyError\<close> on a key that is not in the table.\<close>

definition turn :: "(vec \<times> vec) list \<Rightarrow> interp \<Rightarrow> outcome" where
  "turn table s =
     (case map_of table (direction s) of
        None \<Rightarrow> Raised KeyError s
      | Some d \<Rightarrow> Returned RNone (s\<lparr>direction := d\<rparr>))"

definition op_mirror_slash :: handler where
  "op_mirror_slash h s =
     (if stack s = [] then Returned RNone s
      else (let (val, st1) = pop (stack s)
            in turn (if val = 0 then TURN_LEFT else TURN_RIGHT) (s\<lparr>stack := st1\<rparr>)))"

definition op_mirror_backslash :: handler where
  "op_mirror_backslash h s =
     (if stack s = [] then Returned RNone s
      else (let (val, st1) = pop (stack s)
            in turn (if val = 0 then TURN_RIGHT else TURN_LEFT) (s\<lparr>stack := st1\<rparr>)))"

definition op_exit :: handler where
  "op_exit h s = Returned RFalse s"

definition op_quote :: handler where
  "op_quote h s = Returned RNone (s\<lparr>string_mode := True\<rparr>)"

text \<open>The dictionary \<open>self.ops\<close>, in the order of the source.\<close>

definition ops :: "(char \<times> handler) list" where
  "ops =
     [(CHR ''^'', op_up), (CHR ''>'', op_right), (CHR ''<'', op_left), (CHR ''V'', op_down),
      (CHR ''?'', op_random_dir),
      (CHR ''+'', op_add), (CHR ''-'', op_sub), (CHR ''*'', op_mul), (CHR '':'', op_div),
      (CHR ''%'', op_mod), (CHR ''&'', op_and), (CHR ''o'', op_or), (CHR ''x'', op_xor),
      (CHR ''~'', op_not), (CHR ''='', op_eq), (CHR ''('', op_less), (CHR '')'', op_greater),
      (CHR ''P'', op_pop), (CHR ''S'', op_swap), (CHR ''C'', op_copy),
      (CHR ''D'', op_move_to_aux), (CHR ''U'', op_move_from_aux),
      (CHR ''{'', op_rotate_left), (CHR ''}'', op_rotate_right),
      (CHR ''L'', op_len), (CHR ''Z'', op_clear),
      (CHR ''N'', op_print_num), (CHR ''A'', op_print_char), (CHR ''I'', op_input),
      (CHR ''h'', op_heap_store), (CHR ''H'', op_heap_load),
      (CHR ''g'', op_grid_get), (CHR ''p'', op_grid_put),
      (CHR ''j'', op_jump), (CHR ''F'', op_func_call), (CHR ''R'', op_return),
      (CHR ''M'', op_merge), (CHR ''T'', op_time), (CHR ''W'', op_wait),
      (CHR ''|'', op_vertical_mirror), (CHR ''_'', op_horizontal_mirror),
      (CHR ''/'', op_mirror_slash), (CHR 0x5C, op_mirror_backslash),
      (CHR ''@'', op_exit), (CHR 0x22, op_quote)]"

definition ops_lookup :: "nat \<Rightarrow> handler option" where
  "ops_lookup c = map_of (map (\<lambda>(k, f). (code_point k, f)) ops) c"

subsection \<open>\<open>process_char\<close> and \<open>run\<close>\<close>

text \<open>
  The body of the \<open>try\<close> in \<open>process_char\<close>. \<open>int(char)\<close> raises \<open>ValueError\<close> on
  a digit that is not decimal.
\<close>

definition try_body :: "host \<Rightarrow> cell \<Rightarrow> interp \<Rightarrow> outcome" where
  "try_body h char s =
     (case char of
        None \<Rightarrow> Returned RNone s
      | Some c \<Rightarrow>
          if isdigit h c then
            (case digit_class_of h c of
               Decimal v \<Rightarrow> Returned RNone (push v s)
             | _ \<Rightarrow> Raised ValueError s)
          else (case ops_lookup c of
                  Some f \<Rightarrow> f h s
                | None \<Rightarrow> Returned RNone s))"

text \<open>
  In string mode \<open>ord(char)\<close> is outside the \<open>try\<close>: on the empty string it raises
  \<open>TypeError\<close>, which leaves \<open>process_char\<close>. In ignore mode \<open>char in "|_"\<close> is the
  substring test of Python, which the empty string passes.
\<close>

definition process_char :: "host \<Rightarrow> cell \<Rightarrow> interp \<Rightarrow> step" where
  "process_char h char s =
     (if string_mode s then
        (if char = Some (code_point (CHR 0x22)) then Result True (move (s\<lparr>string_mode := False\<rparr>))
         else (case char of
                 None \<Rightarrow> Propagated TypeError s
               | Some c \<Rightarrow> Result True (move (push (int c) s))))
      else if ignore_mode s then
        (if char = None \<or> char = Some (code_point CHR ''|'') \<or> char = Some (code_point CHR ''_'')
         then Result True (move (s\<lparr>ignore_mode := False\<rparr>))
         else Result True (move s))
      else (case try_body h char s of
              Raised e s' \<Rightarrow> Result False s'
            | Returned RFalse s' \<Rightarrow> Result False s'
            | Returned RJumped s' \<Rightarrow> Result True s'
            | Returned RNone s' \<Rightarrow> Result True (move s')))"

text \<open>
  One pass of the loop body of \<open>run\<close>: \<open>self.program.get_item\<close> raises
  \<open>AttributeError\<close> when no program is loaded.
\<close>

definition fetch_step :: "host \<Rightarrow> interp \<Rightarrow> step" where
  "fetch_step h s =
     (case program s of
        None \<Rightarrow> Propagated AttributeError s
      | Some g \<Rightarrow> process_char h (get_item g (ipx s) (ipy s)) s)"

fun continues :: "step \<Rightarrow> bool" where
  "continues (Result b s) = b"
| "continues (Propagated e s) = False"

fun state_of :: "step \<Rightarrow> interp" where
  "state_of (Result b s) = s"
| "state_of (Propagated e s) = s"

text \<open>
  The loops of \<open>run\<close>. The host of the \<open>i\<close>-th pass is \<open>hs i\<close>. The \<open>for\<close> loop over
  \<open>range(steps)\<close> ends in \<open>return 0 < steps\<close>, which is \<open>True\<close> on this branch; the
  loop \<open>while True\<close> may run for ever, which is the value \<open>None\<close>.
\<close>

fun run_for :: "(nat \<Rightarrow> host) \<Rightarrow> nat \<Rightarrow> nat \<Rightarrow> interp \<Rightarrow> step" where
  "run_for hs i 0 s = Result True s"
| "run_for hs i (Suc n) s =
     (let r = fetch_step (hs i) s
      in if continues r then run_for hs (Suc i) n (state_of r)
         else r)"

partial_function (option) run_while :: "(nat \<Rightarrow> host) \<Rightarrow> nat \<Rightarrow> interp \<Rightarrow> step option" where
  "run_while hs i s =
     (let r = fetch_step (hs i) s
      in if continues r then run_while hs (Suc i) (state_of r)
         else Some r)"

definition run :: "(nat \<Rightarrow> host) \<Rightarrow> int \<Rightarrow> interp \<Rightarrow> step option" where
  "run hs steps s =
     (if steps < 0 then Some (Propagated ValueError s)
      else if steps > 0 then Some (run_for hs 0 (nat steps) s)
      else run_while hs 0 s)"

subsection \<open>Notions used to state the properties\<close>

fun outcome_state :: "outcome \<Rightarrow> interp" where
  "outcome_state (Returned r s) = s"
| "outcome_state (Raised e s) = s"

definition unit_vectors :: "vec set" where
  "unit_vectors = {(0, -1), (1, 0), (0, 1), (-1, 0)}"

definition invariant :: "interp \<Rightarrow> bool" where
  "invariant s = (direction s \<in> unit_vectors \<and> \<not> (ignore_mode s \<and> string_mode s))"

text \<open>
  \<open>steps_ok hs k s\<close> is the state after \<open>k\<close> passes of the loop body that all returned
  \<open>True\<close>, and \<open>None\<close> when one of them returned \<open>False\<close> or raised: the machine has
  not halted within \<open>k\<close> steps exactly when this is \<open>Some\<close>.
\<close>

fun steps_ok :: "(nat \<Rightarrow> host) \<Rightarrow> nat \<Rightarrow> interp \<Rightarrow> interp option" where
  "steps_ok hs 0 s = Some s"
| "steps_ok hs (Suc k) s =
     (case steps_ok hs k s of
        None \<Rightarrow> None
      | Some s1 \<Rightarrow> if continues (fetch_step (hs k) s1) then Some (state_of (fetch_step (hs k) s1))
                   else None)"

text \<open>A grid is rectangular when every row is as long as the first.\<close>

definition rect :: "grid \<Rightarrow> bool" where
  "rect g = (\<forall>row \<in> set g. length row = cols g)"

text \<open>
  The arity of the arithmetic, logic and stack opcodes, and the stack each of them
  takes its operands from (\<open>U\<close> pops the auxiliary stack, the others the main one).
\<close>

definition arities :: "(char \<times> nat) list" where
  "arities =
     [(CHR ''+'', 2), (CHR ''-'', 2), (CHR ''*'', 2), (CHR '':'', 2), (CHR ''%'', 2),
      (CHR ''&'', 2), (CHR ''o'', 2), (CHR ''x'', 2), (CHR ''~'', 1), (CHR ''='', 2),
      (CHR ''('', 2), (CHR '')'', 2), (CHR ''P'', 1), (CHR ''S'', 2), (CHR ''C'', 1),
      (CHR ''D'', 1), (CHR ''U'', 1), (CHR ''{'', 2), (CHR ''}'', 2)]"

definition operand_stack :: "char \<Rightarrow> interp \<Rightarrow> int list" where
  "operand_stack k s = (if k = CHR ''U'' then addition_stack s else stack s)"

text \<open>A host where nothing fails, and programs written as rows of characters.\<close>

definition quiet_host :: host where
  "quiet_host =
     \<lparr>h_unicode = (\<lambda>c. NotDigit), h_random = 0, h_time = 0, h_input = CbStr [],
      h_file = (\<lambda>name. None), h_stdout_fails = False, h_sleep_fails = (\<lambda>n. False),
      h_max_str_digits = Some 4300\<rparr>"

definition row_of :: "string \<Rightarrow> cell list" where
  "row_of cs = map (\<lambda>c. Some (code_point c)) cs"

definition fresh :: "grid \<Rightarrow> interp" where
  "fresh g = (Interpreter_init None CbNone)\<lparr>program := Some g\<rparr>"

section \<open>Properties\<close>

subsection \<open>Lemmas on the dispatch table\<close>

lemmas op_defs = op_up_def op_right_def op_left_def op_down_def op_random_dir_def
  op_add_def op_sub_def op_mul_def op_div_def op_mod_def op_and_def op_or_def op_xor_def
  op_not_def op_eq_def op_less_def op_greater_def op_pop_def op_swap_def op_copy_def
  op_move_to_aux_def op_move_from_aux_def op_rotate_left_def op_rotate_right_def
  op_len_def op_clear_def op_print_num_def op_print_char_def op_input_def
  call_built_in_input_def op_heap_store_def op_heap_load_def op_grid_get_def op_grid_put_def
  op_jump_def op_func_call_def op_return_def op_merge_def op_time_def op_wait_def
  op_vertical_mirror_def op_horizontal_mirror_def turn_def op_mirror_slash_def
  op_mirror_backslash_def op_exit_def op_quote_def

lemma ops_lookup_range: "ops_lookup c = Some f \<Longrightarrow> f \<in> set (map snd ops)"
  unfolding ops_lookup_def
  by (drule map_of_SomeD) force

lemma ops_lookup_key: "ops_lookup c = Some f \<Longrightarrow> c \<in> set (map (code_point \<circ> fst) ops)"
  unfolding ops_lookup_def
  by (drule map_of_SomeD) force

lemma ops_keys_not_digits: "ops_lookup c = Some f \<Longrightarrow> \<not> isdigit h c"
  by (drule ops_lookup_key) (auto simp: ops_def code_point_def isdigit_def digit_class_of_def)

lemma all_raise_ip:
  "\<forall>f \<in> set (map snd ops). \<forall>h s e s'. f h s = Raised e s' \<longrightarrow> ipx s' = ipx s \<and> ipy s' = ipy s"
  unfolding ops_def
  by (simp add: op_defs pop_def push_def Let_def
      split: option.split sum.split prod.split callback.split cb_result.split bool.split if_split)

lemma all_callback_kept:
  "\<forall>f \<in> set (map snd ops). \<forall>h s. built_in_input (outcome_state (f h s)) = built_in_input s"
  unfolding ops_def
  by (simp add: op_defs pop_def push_def Let_def
      split: option.split sum.split prod.split callback.split cb_result.split bool.split if_split)

lemma run_for_unfold:
  "0 < n \<Longrightarrow> run_for hs i n s =
     (if continues (fetch_step (hs i) s)
      then run_for hs (Suc i) (n - 1) (state_of (fetch_step (hs i) s))
      else fetch_step (hs i) s)"
  by (cases n) (simp_all add: Let_def)

subsection \<open>The direction and the two modes\<close>

lemma turn_tables:
  "d \<in> unit_vectors \<Longrightarrow> \<exists>d'. map_of TURN_LEFT d = Some d' \<and> d' \<in> unit_vectors"
  "d \<in> unit_vectors \<Longrightarrow> \<exists>d'. map_of TURN_RIGHT d = Some d' \<and> d' \<in> unit_vectors"
  by (auto simp: unit_vectors_def TURN_LEFT_def TURN_RIGHT_def)

lemma turn_invariant:
  "direction s \<in> unit_vectors \<Longrightarrow> \<not> ignore_mode s \<Longrightarrow> \<not> string_mode s \<Longrightarrow>
   table = TURN_LEFT \<or> table = TURN_RIGHT \<Longrightarrow> invariant (outcome_state (turn table s))"
  using turn_tables [of "direction s"]
  by (auto simp: turn_def invariant_def)

lemma random_choice_unit: "random_choice h \<in> unit_vectors"
proof -
  have "h_random h mod 4 < 4" by simp
  then have "h_random h mod 4 \<in> {0, 1, 2, 3}" by auto
  then show ?thesis
    by (auto simp: random_choice_def DIRECTIONS_def unit_vectors_def)
qed

lemma direction_of_unit:
  "direction_of CHR ''^'' \<in> unit_vectors" "direction_of CHR ''>'' \<in> unit_vectors"
  "direction_of CHR ''<'' \<in> unit_vectors" "direction_of CHR ''V'' \<in> unit_vectors"
  by (simp_all add: direction_of_def DIRECTIONS_def unit_vectors_def)

lemma all_invariant:
  "\<forall>f \<in> set (map snd ops). \<forall>h s. direction s \<in> unit_vectors \<longrightarrow> \<not> ignore_mode s \<longrightarrow>
      \<not> string_mode s \<longrightarrow> invariant (outcome_state (f h s))"
  unfolding ops_def
  apply (simp add: op_defs(1-42) op_defs(44-) pop_def push_def Let_def turn_invariant
       split: option.split sum.split prod.split callback.split cb_result.split bool.split if_split)
  apply (simp add: invariant_def random_choice_unit direction_of_unit)
  done

lemma try_body_invariant:
  assumes "direction s \<in> unit_vectors" "\<not> ignore_mode s" "\<not> string_mode s"
  shows "invariant (outcome_state (try_body h char s))"
proof (cases char)
  case None
  with assms show ?thesis by (simp add: try_body_def invariant_def)
next
  case (Some c)
  show ?thesis
  proof (cases "isdigit h c")
    case True
    with Some assms show ?thesis
      by (simp add: try_body_def invariant_def push_def split: digit_class.split)
  next
    case False
    show ?thesis
    proof (cases "ops_lookup c")
      case None
      with Some False assms show ?thesis by (simp add: try_body_def invariant_def)
    next
      case (Some f)
      then have "f \<in> set (map snd ops)" by (rule ops_lookup_range)
      with all_invariant assms have "invariant (outcome_state (f h s))" by blast
      with Some \<open>char = Some c\<close> False show ?thesis by (simp add: try_body_def)
    qed
  qed
qed

lemma move_invariant: "invariant (move s) = invariant s"
  by (simp add: invariant_def move_def)

lemma process_char_invariant:
  assumes "invariant s"
  shows "invariant (state_of (process_char h char s))"
proof (cases "string_mode s \<or> ignore_mode s")
  case True
  with assms show ?thesis
    by (auto simp: process_char_def invariant_def move_def push_def split: option.split)
next
  case False
  with assms have n: "direction s \<in> unit_vectors" "\<not> ignore_mode s" "\<not> string_mode s"
    by (simp_all add: invariant_def)
  from try_body_invariant [OF n, of h char] n(2,3) show ?thesis
    by (cases "try_body h char s"; simp add: process_char_def move_invariant split: ret.split)
qed

lemma fetch_step_invariant: "invariant s \<Longrightarrow> invariant (state_of (fetch_step h s))"
  by (simp add: fetch_step_def process_char_invariant split: option.split)

lemma run_for_invariant: "invariant s \<Longrightarrow> invariant (state_of (run_for hs i n s))"
  by (induction n arbitrary: i s) (simp_all add: Let_def fetch_step_invariant)

lemma initial_invariant: "invariant ((Interpreter_init inp cb)\<lparr>program := p\<rparr>)"
  by (simp add: invariant_def Interpreter_init_def unit_vectors_def)

text \<open>
  Claim C4. For every program (any grid \<open>g\<close>), every host behaviour and every number
  \<open>n\<close> of steps, the state that \<open>n\<close> passes of the loop of \<open>run\<close> leave behind, started
  from a newly constructed interpreter with the program loaded, has its direction
  among the four unit vectors \<open>(0,-1)\<close>, \<open>(1,0)\<close>, \<open>(0,1)\<close>, \<open>(-1,0)\<close>, and ignore mode
  and string mode are not both set. As \<open>n\<close> is arbitrary this holds after each
  completed step, also the one that halts.
\<close>

theorem direction_and_modes_invariant:
  "direction (state_of (run_for hs 0 n ((Interpreter_init inp cb)\<lparr>program := Some g\<rparr>)))
     \<in> {(0, -1), (1, 0), (0, 1), (-1, 0)}
   \<and> \<not> (ignore_mode (state_of (run_for hs 0 n ((Interpreter_init inp cb)\<lparr>program := Some g\<rparr>)))
        \<and> string_mode (state_of (run_for hs 0 n ((Interpreter_init inp cb)\<lparr>program := Some g\<rparr>))))"
  using run_for_invariant [OF initial_invariant [where inp = inp and cb = cb and p = "Some g"], of hs 0 n]
  by (simp add: invariant_def unit_vectors_def)

lemma butlast_two: "butlast (rest @ [a, b]) = rest @ [a]" "butlast (rest @ [v, a, b]) = rest @ [v, a]"
  by (simp_all add: butlast_append)

subsection \<open>Function call\<close>

lemma lookup_F: "ops_lookup (code_point CHR ''F'') = Some op_func_call"
  by (simp add: ops_lookup_def ops_def code_point_def)

lemma lookup_div: "ops_lookup (code_point CHR '':'') = Some op_div"
  by (simp add: ops_lookup_def ops_def code_point_def)

lemma lookup_mod: "ops_lookup (code_point CHR ''%'') = Some op_mod"
  by (simp add: ops_lookup_def ops_def code_point_def)

lemma process_char_normal:
  "\<not> string_mode s \<Longrightarrow> \<not> ignore_mode s \<Longrightarrow> ops_lookup c = Some f \<Longrightarrow>
   process_char h (Some c) s =
     (case f h s of
        Raised e s' \<Rightarrow> Result False s'
      | Returned RFalse s' \<Rightarrow> Result False s'
      | Returned RJumped s' \<Rightarrow> Result True s'
      | Returned RNone s' \<Rightarrow> Result True (move s'))"
  by (simp add: process_char_def try_body_def ops_keys_not_digits)

text \<open>
  Claim C7. In normal mode, on a stack \<open>rest @ [tx, ty]\<close> (at least two elements, \<open>ty\<close>
  on top), the step on an \<open>F\<close> cell pops \<open>ty\<close> then \<open>tx\<close>, appends to the call stack
  the position \<open>(x + dx, y + dy)\<close> computed from the position and direction at
  dispatch (the position a \<open>move\<close> from the \<open>F\<close> cell would reach), sets the
  instruction pointer to \<open>(tx, ty)\<close> and returns without the move after the step.
\<close>

theorem func_call_pushes_return_address:
  assumes "\<not> string_mode s" and "\<not> ignore_mode s" and "stack s = rest @ [tx, ty]"
  shows "process_char h (Some (code_point CHR ''F'')) s =
           Result True
             (s\<lparr>stack := rest,
                call_stack := call_stack s @ [(ipx s + fst (direction s), ipy s + snd (direction s))],
                ipx := tx, ipy := ty\<rparr>)
         \<and> (ipx s + fst (direction s), ipy s + snd (direction s)) = (ipx (move s), ipy (move s))"
  using assms
  by (simp add: process_char_normal [OF _ _ lookup_F] op_func_call_def pop_def move_def butlast_two)

theorem func_call_pushes_return_address_witness:
  "process_char quiet_host (Some (code_point CHR ''F''))
     ((fresh [row_of ''301FN@'', row_of ''5R''])\<lparr>stack := [3, 0, 1], ipx := 3\<rparr>) =
   Result True
     ((fresh [row_of ''301FN@'', row_of ''5R''])\<lparr>stack := [3], call_stack := [(4, 0)], ipx := 0, ipy := 1\<rparr>)"
  using func_call_pushes_return_address
    [of "(fresh [row_of ''301FN@'', row_of ''5R''])\<lparr>stack := [3, 0, 1], ipx := 3\<rparr>" "[3]" 0 1 quiet_host]
  by (simp add: fresh_def Interpreter_init_def)

subsection \<open>Division and modulus\<close>

text \<open>
  Claim C8. On a stack \<open>rest @ [a, b]\<close> (at least two elements, \<open>b\<close> on top) the
  handlers of \<open>:\<close> and \<open>%\<close> return normally and leave \<open>rest @ [q]\<close> and \<open>rest @ [r]\<close>,
  where \<open>q = r = 0\<close> when \<open>b = 0\<close>, and otherwise \<open>a = q * b + r\<close> with \<open>r\<close> between
  \<open>0\<close> and \<open>b\<close> on the side of \<open>b\<close>: the quotient rounded towards minus infinity and
  the modulus with the sign of the divisor. Neither raises for any \<open>b\<close>.
\<close>

theorem div_mod_floor:
  assumes "stack s = rest @ [a, b]"
  shows "\<exists>q r. ops_lookup (code_point CHR '':'') = Some op_div
           \<and> ops_lookup (code_point CHR ''%'') = Some op_mod
           \<and> op_div h s = Returned RNone (s\<lparr>stack := rest @ [q]\<rparr>)
           \<and> op_mod h s = Returned RNone (s\<lparr>stack := rest @ [r]\<rparr>)
           \<and> (b = 0 \<longrightarrow> q = 0 \<and> r = 0)
           \<and> (b \<noteq> 0 \<longrightarrow> a = q * b + r \<and> (0 < b \<longrightarrow> 0 \<le> r \<and> r < b) \<and> (b < 0 \<longrightarrow> b < r \<and> r \<le> 0))"
proof (cases "b = 0")
  case True
  with assms show ?thesis
    by (simp add: lookup_div lookup_mod op_div_def op_mod_def pop_def butlast_two)
next
  case False
  have "a = (a div b) * b + a mod b" by simp
  moreover have "0 < b \<longrightarrow> 0 \<le> a mod b \<and> a mod b < b" by simp
  moreover have "b < 0 \<longrightarrow> b < a mod b \<and> a mod b \<le> 0" by simp
  moreover from assms False have "op_div h s = Returned RNone (s\<lparr>stack := rest @ [a div b]\<rparr>)"
    by (simp add: op_div_def pop_def butlast_two)
  moreover from assms False have "op_mod h s = Returned RNone (s\<lparr>stack := rest @ [a mod b]\<rparr>)"
    by (simp add: op_mod_def pop_def butlast_two)
  ultimately show ?thesis
    using False lookup_div lookup_mod by blast
qed

theorem div_mod_floor_witness:
  "op_div quiet_host ((fresh [])\<lparr>stack := [- 7, 2]\<rparr>) = Returned RNone ((fresh [])\<lparr>stack := [- 4]\<rparr>)
   \<and> op_mod quiet_host ((fresh [])\<lparr>stack := [- 7, 2]\<rparr>) = Returned RNone ((fresh [])\<lparr>stack := [1]\<rparr>)"
proof -
  from div_mod_floor [of "(fresh [])\<lparr>stack := [- 7, 2]\<rparr>" "[]" "- 7" 2 quiet_host]
  obtain q r where d: "op_div quiet_host ((fresh [])\<lparr>stack := [- 7, 2]\<rparr>) = Returned RNone ((fresh [])\<lparr>stack := [q]\<rparr>)"
    and m: "op_mod quiet_host ((fresh [])\<lparr>stack := [- 7, 2]\<rparr>) = Returned RNone ((fresh [])\<lparr>stack := [r]\<rparr>)"
    and e: "- 7 = q * 2 + r" and b: "0 \<le> r" "r < 2"
    by auto
  from e b have "q = - 4" "r = 1" by arith+
  with d m show ?thesis by simp
qed

subsection \<open>Arity guards\<close>

lemma arity_lookups:
  "\<forall>(k, n) \<in> set arities. \<exists>f. ops_lookup (code_point k) = Some f
      \<and> (\<forall>h s. length (operand_stack k s) < n \<longrightarrow> f h s = Returned RNone s)"
  unfolding arities_def
  by (simp add: operand_stack_def ops_lookup_def ops_def code_point_def op_defs)

text \<open>
  Claim C5. For each of the opcodes \<open>+ - * : % & o x ~ = ( ) P S C D U { }\<close> with its
  arity \<open>n\<close>: when the stack the opcode takes its operands from holds fewer than \<open>n\<close>
  elements, its handler returns normally (no exception, so no underflow fault) and
  leaves the whole state, the main stack included, as it was; in normal mode the step
  is then just the move of the instruction pointer.
\<close>

theorem arity_unmet_is_noop:
  assumes "(k, n) \<in> set arities" and "length (operand_stack k s) < n"
  shows "\<exists>f. ops_lookup (code_point k) = Some f \<and> f h s = Returned RNone s
           \<and> (\<not> string_mode s \<and> \<not> ignore_mode s \<longrightarrow>
                process_char h (Some (code_point k)) s = Result True (move s)
                \<and> stack (move s) = stack s)"
proof -
  from assms arity_lookups
  obtain f where f: "ops_lookup (code_point k) = Some f" "f h s = Returned RNone s"
    by fastforce
  then have "\<not> string_mode s \<and> \<not> ignore_mode s \<longrightarrow>
      process_char h (Some (code_point k)) s = Result True (move s) \<and> stack (move s) = stack s"
    by (simp add: process_char_normal move_def)
  with f show ?thesis by blast
qed

theorem arity_unmet_is_noop_witness:
  "process_char quiet_host (Some (code_point CHR ''+'')) ((fresh [row_of ''+''])\<lparr>stack := [5]\<rparr>) =
     Result True ((fresh [row_of ''+''])\<lparr>stack := [5], ipx := 1\<rparr>)"
  using arity_unmet_is_noop [of "CHR ''+''" 2 "(fresh [row_of ''+''])\<lparr>stack := [5]\<rparr>" quiet_host]
  by (auto simp: arities_def operand_stack_def fresh_def Interpreter_init_def move_def)

subsection \<open>Exceptions that leave \<open>run\<close>\<close>

lemma run_while_stop:
  "\<not> continues (fetch_step (hs i) s) \<Longrightarrow> run_while hs i s = Some (fetch_step (hs i) s)"
  by (subst run_while.simps) (simp add: Let_def)

lemma run_for_stop:
  "0 < n \<Longrightarrow> \<not> continues (fetch_step (hs i) s) \<Longrightarrow> run_for hs i n s = fetch_step (hs i) s"
  by (simp add: run_for_unfold)

lemma run_stop:
  assumes "\<not> continues (fetch_step (hs 0) s)" and "0 \<le> steps"
  shows "run hs steps s = Some (fetch_step (hs 0) s)"
proof (cases "steps = 0")
  case True
  with assms(1) show ?thesis by (simp add: run_def run_while_stop)
next
  case False
  with assms(2) have "0 < nat steps" "0 < steps" by simp_all
  with assms(1) show ?thesis by (simp add: run_def run_for_stop)
qed

text \<open>
  Claim C9. In string mode, when the current cell is the empty sentinel (the
  instruction pointer outside the grid, or on an unfilled cell), \<open>process_char\<close> raises
  \<open>TypeError\<close> from \<open>ord\<close> outside its \<open>try\<close>; the exception leaves \<open>run\<close> for every
  non-negative step count, with the state unchanged. The step is not total in string
  mode.
\<close>

theorem string_mode_empty_cell_raises:
  assumes "string_mode s" and "program s = Some g" and "get_item g (ipx s) (ipy s) = None"
  shows "process_char h (get_item g (ipx s) (ipy s)) s = Propagated TypeError s
         \<and> (0 \<le> steps \<longrightarrow> run hs steps s = Some (Propagated TypeError s))"
proof -
  from assms have p: "process_char h (get_item g (ipx s) (ipy s)) s = Propagated TypeError s" for h
    by (simp add: process_char_def)
  with assms have "fetch_step (hs 0) s = Propagated TypeError s"
    by (simp add: fetch_step_def)
  then have "0 \<le> steps \<longrightarrow> run hs steps s = Some (Propagated TypeError s)"
    using run_stop [of hs s steps] by simp
  with p show ?thesis by simp
qed

theorem string_mode_empty_cell_raises_witness:
  "run (\<lambda>_. quiet_host) 1 ((fresh [[Some 34]])\<lparr>string_mode := True, ipx := 1\<rparr>) =
     Some (Propagated TypeError ((fresh [[Some 34]])\<lparr>string_mode := True, ipx := 1\<rparr>))"
  using string_mode_empty_cell_raises
    [where s = "(fresh [[Some 34]])\<lparr>string_mode := True, ipx := 1\<rparr>" and g = "[[Some 34]]"
       and steps = 1 and hs = "\<lambda>_. quiet_host" and h = quiet_host]
  by (simp add: fresh_def Interpreter_init_def get_item_def)


subsection \<open>\<open>set_input\<close> and the input callback\<close>

lemma process_char_callback_kept:
  "built_in_input (state_of (process_char h char s)) = built_in_input s"
proof (cases "string_mode s \<or> ignore_mode s")
  case True
  then show ?thesis
    by (auto simp: process_char_def move_def push_def split: option.split)
next
  case False
  have t: "built_in_input (outcome_state (try_body h char s)) = built_in_input s"
  proof (cases char)
    case None
    then show ?thesis by (simp add: try_body_def)
  next
    case (Some c)
    show ?thesis
    proof (cases "ops_lookup c")
      case None
      with Some show ?thesis by (simp add: try_body_def push_def split: digit_class.split)
    next
      case f: (Some f)
      then have "f \<in> set (map snd ops)" by (rule ops_lookup_range)
      with all_callback_kept have "built_in_input (outcome_state (f h s)) = built_in_input s"
        by blast
      with f Some show ?thesis by (simp add: try_body_def push_def split: digit_class.split)
    qed
  qed
  with False show ?thesis
    by (cases "try_body h char s"; simp add: process_char_def move_def split: ret.split)
qed

lemma fetch_step_callback_kept:
  "built_in_input (state_of (fetch_step h s)) = built_in_input s"
  by (simp add: fetch_step_def process_char_callback_kept split: option.split)

lemma lookup_I: "ops_lookup (code_point CHR ''I'') = Some op_input"
  by (simp add: ops_lookup_def ops_def code_point_def)

text \<open>
  Claim C10. \<open>set_input\<close> always stores a boolean in \<open>built_in_input\<close>: \<open>False\<close> for a
  non-empty input, \<open>True\<close> for the empty one. No step of the machine and no \<open>reset\<close>
  changes the field afterwards, so the callback bound at construction is lost. After
  \<open>set_input\<close> with the empty string the handler of \<open>I\<close> calls the boolean \<open>True\<close>,
  which raises \<open>TypeError\<close>; in normal mode \<open>process_char\<close> catches it and returns
  \<open>False\<close>, which halts the machine.
\<close>

theorem set_input_overwrites_callback:
  "built_in_input (set_input input_data p s) = CbBool (input_data = [])
   \<and> built_in_input (state_of (fetch_step h s)) = built_in_input s
   \<and> built_in_input (reset s) = built_in_input s
   \<and> op_input h (set_input [] p s) = Raised TypeError (set_input [] p s)
   \<and> (\<not> string_mode s \<and> \<not> ignore_mode s \<longrightarrow>
        process_char h (Some (code_point CHR ''I'')) (set_input [] p s) =
          Result False (set_input [] p s))"
proof -
  have a: "op_input h (set_input [] p s) = Raised TypeError (set_input [] p s)"
    by (simp add: op_input_def call_built_in_input_def set_input_def)
  have "\<not> string_mode s \<and> \<not> ignore_mode s \<longrightarrow>
        process_char h (Some (code_point CHR ''I'')) (set_input [] p s) =
          Result False (set_input [] p s)"
    using process_char_normal [OF _ _ lookup_I, of "set_input [] p s" h] a
    by (simp add: set_input_def)
  with a show ?thesis
    by (simp add: fetch_step_callback_kept) (simp add: set_input_def reset_def)
qed

theorem set_input_overwrites_callback_witness:
  "process_char quiet_host (Some (code_point CHR ''I''))
     (set_input [] 0 ((Interpreter_init None CbFunction)\<lparr>program := Some [row_of ''I'']\<rparr>)) =
   Result False
     ((Interpreter_init (Some []) (CbBool True))\<lparr>program := Some [row_of ''I'']\<rparr>)"
  using set_input_overwrites_callback
    [where s = "(Interpreter_init None CbFunction)\<lparr>program := Some [row_of ''I'']\<rparr>"
       and p = 0 and h = quiet_host]
  by (simp add: Interpreter_init_def set_input_def)

subsection \<open>Exceptions inside a handler\<close>

text \<open>
  Claim C1, as the code has it. In normal mode, when the handler of the current cell
  raises, the exception is caught inside \<open>process_char\<close> (nothing propagates), but the
  step is not a no-op that continues: \<open>process_char\<close> returns \<open>False\<close>, the
  instruction pointer is not advanced, the mutations made before the raise stay, and
  \<open>run\<close> returns \<open>False\<close> at once for every non-negative step count: the machine halts.
\<close>

theorem opcode_fault_halts:
  assumes "\<not> string_mode s" and "\<not> ignore_mode s"
    and "ops_lookup c = Some f" and "f (hs 0) s = Raised e s'"
  shows "process_char (hs 0) (Some c) s = Result False s'
         \<and> ipx s' = ipx s \<and> ipy s' = ipy s
         \<and> (program s = Some g \<and> get_item g (ipx s) (ipy s) = Some c \<and> 0 \<le> steps \<longrightarrow>
              run hs steps s = Some (Result False s'))"
proof -
  from assms have p: "process_char (hs 0) (Some c) s = Result False s'"
    by (simp add: process_char_normal)
  from assms(3) have "f \<in> set (map snd ops)" by (rule ops_lookup_range)
  with all_raise_ip assms(4) have ip: "ipx s' = ipx s \<and> ipy s' = ipy s" by blast
  have "run hs steps s = Some (Result False s')"
    if "program s = Some g" "get_item g (ipx s) (ipy s) = Some c" "0 \<le> steps"
  proof -
    from that p have "fetch_step (hs 0) s = Result False s'" by (simp add: fetch_step_def)
    with that(3) show ?thesis using run_stop [of hs s steps] by simp
  qed
  with p ip show ?thesis by blast
qed

lemma lookup_A: "ops_lookup (code_point CHR ''A'') = Some op_print_char"
  by (simp add: ops_lookup_def ops_def code_point_def)

theorem opcode_fault_halts_witness:
  "run (\<lambda>_. quiet_host) 1 ((fresh [row_of ''01-A@''])\<lparr>stack := [- 1], ipx := 3\<rparr>) =
     Some (Result False ((fresh [row_of ''01-A@''])\<lparr>stack := [], ipx := 3\<rparr>))"
  using opcode_fault_halts
    [where s = "(fresh [row_of ''01-A@''])\<lparr>stack := [- 1], ipx := 3\<rparr>" and c = "code_point CHR ''A''"
       and f = op_print_char and hs = "\<lambda>_. quiet_host" and e = ValueError
       and s' = "(fresh [row_of ''01-A@''])\<lparr>stack := [], ipx := 3\<rparr>"
       and g = "[row_of ''01-A@'']" and steps = 1]
  by (simp add: lookup_A fresh_def Interpreter_init_def op_print_char_def pop_def py_chr_def
      get_item_def row_of_def)

lemma lookup_sub: "ops_lookup (code_point CHR ''-'') = Some op_sub"
  by (simp add: ops_lookup_def ops_def code_point_def)

text \<open>
  The program \<open>01-A@\<close> pushes \<open>-1\<close> and reaches \<open>A\<close>, whose \<open>chr(-1)\<close> raises
  \<open>ValueError\<close> after the pop. \<open>run(4)\<close> returns \<open>False\<close> with the instruction pointer
  still on the \<open>A\<close> cell and the stack popped, where a silent no-op would have
  advanced to the \<open>@\<close> cell and returned \<open>True\<close>.
\<close>

theorem opcode_fault_counterexample:
  "op_print_char quiet_host ((fresh [row_of ''01-A@''])\<lparr>stack := [- 1], ipx := 3\<rparr>) =
     Raised ValueError ((fresh [row_of ''01-A@''])\<lparr>stack := [], ipx := 3\<rparr>)
   \<and> run (\<lambda>_. quiet_host) 4 (fresh [row_of ''01-A@'']) =
     Some (Result False ((fresh [row_of ''01-A@''])\<lparr>stack := [], ipx := 3\<rparr>))"
  by (simp add: run_def run_for_unfold fresh_def row_of_def Interpreter_init_def fetch_step_def
      get_item_def process_char_def try_body_def isdigit_def digit_class_of_def
      lookup_sub [unfolded code_point_def, simplified] lookup_A [unfolded code_point_def, simplified]
      code_point_def push_def move_def op_sub_def op_print_char_def pop_def py_chr_def quiet_host_def)

subsection \<open>The contract of \<open>run\<close>\<close>

lemma run_for_snoc:
  "run_for hs i (Suc n) s =
     (case run_for hs i n s of
        Result b s1 \<Rightarrow>
          if b then (if continues (fetch_step (hs (i + n)) s1)
                     then Result True (state_of (fetch_step (hs (i + n)) s1))
                     else fetch_step (hs (i + n)) s1)
          else Result b s1
      | Propagated e s1 \<Rightarrow> Propagated e s1)"
proof (induction n arbitrary: i s)
  case 0
  show ?case by (simp add: Let_def)
next
  case (Suc n)
  show ?case
  proof (cases "continues (fetch_step (hs i) s)")
    case True
    have "run_for hs i (Suc (Suc n)) s = run_for hs (Suc i) (Suc n) (state_of (fetch_step (hs i) s))"
      using True by (subst run_for.simps(2)) (simp add: Let_def)
    moreover have "run_for hs i (Suc n) s = run_for hs (Suc i) n (state_of (fetch_step (hs i) s))"
      using True by (simp add: Let_def)
    ultimately show ?thesis
      using Suc.IH [of "Suc i" "state_of (fetch_step (hs i) s)"]
      by (simp split: step.split del: run_for.simps)
  next
    case False
    have "run_for hs i (Suc (Suc n)) s = fetch_step (hs i) s"
      using False by (subst run_for.simps(2)) (simp add: Let_def)
    moreover have "run_for hs i (Suc n) s = fetch_step (hs i) s"
      using False by (simp add: Let_def)
    ultimately show ?thesis
      using False by (cases "fetch_step (hs i) s") simp_all
  qed
qed

lemma run_for_True: "run_for hs 0 n s = Result True s' \<longleftrightarrow> steps_ok hs n s = Some s'"
proof (induction n arbitrary: s')
  case 0
  show ?case by auto
next
  case (Suc n)
  show ?case
  proof (cases "run_for hs 0 n s")
    case (Result b s1)
    show ?thesis
    proof (cases b)
      case True
      with Result Suc.IH [of s1] have "steps_ok hs n s = Some s1" by simp
      with Result True show ?thesis
        by (cases "fetch_step (hs n) s1") (auto simp: run_for_snoc simp del: run_for.simps)
    next
      case False
      with Result Suc.IH have "steps_ok hs n s = None"
        by (cases "steps_ok hs n s") auto
      with Result False show ?thesis
        by (simp add: run_for_snoc del: run_for.simps)
    qed
  next
    case (Propagated e s1)
    with Suc.IH have "steps_ok hs n s = None"
      by (cases "steps_ok hs n s") auto
    with Propagated show ?thesis
      by (simp add: run_for_snoc del: run_for.simps)
  qed
qed


lemma run_for_stopped:
  "\<not> continues r \<Longrightarrow>
   run_for hs 0 n s = r \<longleftrightarrow> (\<exists>k<n. \<exists>s1. steps_ok hs k s = Some s1 \<and> fetch_step (hs k) s1 = r)"
proof (induction n)
  case 0
  then show ?case by (cases r) auto
next
  case (Suc n)
  show ?case
  proof (cases "steps_ok hs n s")
    case None
    then have "\<And>s'. run_for hs 0 n s \<noteq> Result True s'" by (simp add: run_for_True)
    then have "run_for hs 0 (Suc n) s = run_for hs 0 n s"
      by (cases "run_for hs 0 n s") (auto simp: run_for_snoc simp del: run_for.simps)
    with Suc None show ?thesis
      by (auto simp: less_Suc_eq simp del: run_for.simps)
  next
    case (Some s1)
    then have t: "run_for hs 0 n s = Result True s1" by (simp add: run_for_True)
    with Suc.prems have "run_for hs 0 n s \<noteq> r" by auto
    with Suc.IH [OF Suc.prems]
    have n: "\<not> (\<exists>k<n. \<exists>s2. steps_ok hs k s = Some s2 \<and> fetch_step (hs k) s2 = r)"
      by simp
    have "run_for hs 0 (Suc n) s = r \<longleftrightarrow> fetch_step (hs n) s1 = r"
      using t Suc.prems by (cases r) (auto simp: run_for_snoc simp del: run_for.simps)
    with n Some show ?thesis
      by (auto simp: less_Suc_eq simp del: run_for.simps)
  qed
qed

lemma run_while_of_run_for:
  "run_for hs i n s = r \<Longrightarrow> \<not> continues r \<Longrightarrow> run_while hs i s = Some r"
proof (induction n arbitrary: i s)
  case 0
  then show ?case by auto
next
  case (Suc n)
  show ?case
  proof (cases "continues (fetch_step (hs i) s)")
    case True
    with Suc.prems have "run_for hs (Suc i) n (state_of (fetch_step (hs i) s)) = r"
      by (simp add: Let_def)
    from Suc.IH [OF this Suc.prems(2)] True show ?thesis
      by (subst run_while.simps) (simp add: Let_def)
  next
    case False
    with Suc.prems have "fetch_step (hs i) s = r" by (simp add: Let_def)
    with False show ?thesis by (simp add: run_while_stop)
  qed
qed

lemma run_for_of_run_while:
  assumes "run_while hs i s = Some r"
  shows "\<not> continues r \<and> (\<exists>n. run_for hs i n s = r)"
proof (rule run_while.raw_induct
    [where P = "\<lambda>hs i s r. \<not> continues r \<and> (\<exists>n. run_for hs i n s = r)", OF _ assms])
  fix f :: "(nat \<Rightarrow> host) \<Rightarrow> nat \<Rightarrow> interp \<Rightarrow> step option" and hs i s r
  assume IH: "\<And>hs i s r. f hs i s = Some r \<Longrightarrow> \<not> continues r \<and> (\<exists>n. run_for hs i n s = r)"
    and eq: "(let r = fetch_step (hs i) s
              in if continues r then f hs (Suc i) (state_of r) else Some r) = Some r"
  show "\<not> continues r \<and> (\<exists>n. run_for hs i n s = r)"
  proof (cases "continues (fetch_step (hs i) s)")
    case True
    with eq have "f hs (Suc i) (state_of (fetch_step (hs i) s)) = Some r"
      by (simp add: Let_def)
    from IH [OF this] obtain n where
      n: "\<not> continues r" "run_for hs (Suc i) n (state_of (fetch_step (hs i) s)) = r" by blast
    with True have "run_for hs i (Suc n) s = r" by (simp add: Let_def)
    with n(1) show ?thesis by blast
  next
    case False
    with eq have r: "fetch_step (hs i) s = r" by (simp add: Let_def)
    with False have "run_for hs i (Suc 0) s = r" by (simp add: Let_def)
    with False r show ?thesis by blast
  qed
qed



lemma process_char_no_ValueError: "process_char h char s \<noteq> Propagated ValueError s'"
proof (cases "string_mode s")
  case True
  then show ?thesis by (cases char) (simp_all add: process_char_def)
next
  case False
  show ?thesis
  proof (cases "ignore_mode s")
    case True
    with False show ?thesis by (simp add: process_char_def)
  next
    case n: False
    show ?thesis
    proof (cases "try_body h char s")
      case (Returned r s1)
      with False n show ?thesis by (cases r) (simp_all add: process_char_def)
    next
      case (Raised e s1)
      with False n show ?thesis by (simp add: process_char_def)
    qed
  qed
qed

lemma fetch_step_no_ValueError: "fetch_step h s \<noteq> Propagated ValueError s'"
  by (cases "program s") (simp_all add: fetch_step_def process_char_no_ValueError)


lemma run_while_iff:
  "run_while hs 0 s = Some r \<longleftrightarrow>
     \<not> continues r \<and> (\<exists>k s1. steps_ok hs k s = Some s1 \<and> fetch_step (hs k) s1 = r)"
proof
  assume "run_while hs 0 s = Some r"
  from run_for_of_run_while [OF this] obtain n where "\<not> continues r" "run_for hs 0 n s = r"
    by blast
  then show "\<not> continues r \<and> (\<exists>k s1. steps_ok hs k s = Some s1 \<and> fetch_step (hs k) s1 = r)"
    using run_for_stopped [of r hs n s] by blast
next
  assume a: "\<not> continues r \<and> (\<exists>k s1. steps_ok hs k s = Some s1 \<and> fetch_step (hs k) s1 = r)"
  then obtain k s1 where "steps_ok hs k s = Some s1" "fetch_step (hs k) s1 = r" by blast
  with a have "run_for hs 0 (Suc k) s = r"
    using run_for_stopped [of r hs "Suc k" s] by blast
  with a show "run_while hs 0 s = Some r" by (blast intro: run_while_of_run_for)
qed


lemma lookup_exit: "ops_lookup (code_point CHR ''@'') = Some op_exit"
  by (simp add: ops_lookup_def ops_def code_point_def)

lemma fetch_digit_example:
  "fetch_step quiet_host (fresh [row_of ''34+N@'']) =
     Result True ((fresh [row_of ''34+N@''])\<lparr>stack := [3], ipx := 1\<rparr>)"
  by (simp add: fresh_def row_of_def code_point_def Interpreter_init_def fetch_step_def get_item_def
      process_char_def try_body_def isdigit_def digit_class_of_def push_def move_def)

lemma fetch_exit_example:
  "fetch_step quiet_host (fresh [row_of ''@'']) = Result False (fresh [row_of ''@''])"
proof -
  have "get_item [row_of ''@''] 0 0 = Some (code_point CHR ''@'')"
    by (simp add: get_item_def row_of_def)
  then show ?thesis
    by (simp add: fresh_def Interpreter_init_def fetch_step_def process_char_normal [OF _ _ lookup_exit]
        op_exit_def)
qed

lemma all_false_is_exit:
  "\<forall>(k, f) \<in> set ops. \<forall>h s s'. f h s = Returned RFalse s' \<longrightarrow> k = CHR ''@'' \<and> s' = s"
  unfolding ops_def
  by (simp add: op_defs pop_def push_def Let_def
      split: option.split sum.split prod.split callback.split cb_result.split bool.split if_split)

lemma ops_lookup_pair: "ops_lookup c = Some f \<Longrightarrow> \<exists>k. (k, f) \<in> set ops \<and> c = code_point k"
  unfolding ops_lookup_def
  by (drule map_of_SomeD) force

lemma try_body_False_iff:
  "try_body h char s = Returned RFalse s' \<longleftrightarrow> char = Some (code_point CHR ''@'') \<and> s' = s"
proof
  assume "char = Some (code_point CHR ''@'') \<and> s' = s"
  then show "try_body h char s = Returned RFalse s'"
    using ops_keys_not_digits [OF lookup_exit, of h]
    by (simp add: try_body_def lookup_exit op_exit_def)
next
  assume a: "try_body h char s = Returned RFalse s'"
  show "char = Some (code_point CHR ''@'') \<and> s' = s"
  proof (cases char)
    case None
    with a show ?thesis by (simp add: try_body_def)
  next
    case (Some c)
    show ?thesis
    proof (cases "isdigit h c")
      case True
      with a Some show ?thesis by (simp add: try_body_def split: digit_class.splits)
    next
      case False
      show ?thesis
      proof (cases "ops_lookup c")
        case None
        with a Some False show ?thesis by (simp add: try_body_def)
      next
        case f: (Some f)
        with a Some False have r: "f h s = Returned RFalse s'" by (simp add: try_body_def)
        from ops_lookup_pair [OF f] obtain k where k: "(k, f) \<in> set ops" "c = code_point k"
          by blast
        with all_false_is_exit r have "k = CHR ''@'' \<and> s' = s" by blast
        with k Some show ?thesis by simp
      qed
    qed
  qed
qed

lemma fetch_step_False_iff:
  "fetch_step h s = Result False s' \<longleftrightarrow>
     (\<exists>g. program s = Some g \<and> \<not> string_mode s \<and> \<not> ignore_mode s
        \<and> (get_item g (ipx s) (ipy s) = Some (code_point CHR ''@'') \<and> s' = s
            \<or> (\<exists>e. try_body h (get_item g (ipx s) (ipy s)) s = Raised e s')))"
proof (cases "program s")
  case None
  then show ?thesis by (simp add: fetch_step_def)
next
  case (Some g)
  show ?thesis
  proof (cases "string_mode s \<or> ignore_mode s")
    case True
    with Some show ?thesis
      by (auto simp: fetch_step_def process_char_def split: option.splits)
  next
    case False
    show ?thesis
    proof (cases "try_body h (get_item g (ipx s) (ipy s)) s")
      case (Raised e s1)
      with Some False try_body_False_iff [of h "get_item g (ipx s) (ipy s)" s s]
      show ?thesis by (auto simp: fetch_step_def process_char_def)
    next
      case (Returned r s1)
      with Some False try_body_False_iff [of h "get_item g (ipx s) (ipy s)" s s1]
        try_body_False_iff [of h "get_item g (ipx s) (ipy s)" s s]
      show ?thesis by (cases r) (auto simp: fetch_step_def process_char_def)
    qed
  qed
qed

lemma fetch_step_Propagated_iff:
  "fetch_step h s = Propagated e s' \<longleftrightarrow>
     s' = s \<and> (program s = None \<and> e = AttributeError
        \<or> (\<exists>g. program s = Some g \<and> string_mode s \<and> get_item g (ipx s) (ipy s) = None
              \<and> e = TypeError))"
proof (cases "program s")
  case None
  then show ?thesis by (auto simp: fetch_step_def)
next
  case (Some g)
  show ?thesis
  proof (cases "string_mode s")
    case True
    with Some show ?thesis
      by (cases "get_item g (ipx s) (ipy s)") (auto simp: fetch_step_def process_char_def)
  next
    case False
    show ?thesis
    proof (cases "ignore_mode s")
      case True
      with Some False show ?thesis by (simp add: fetch_step_def process_char_def)
    next
      case n: False
      with Some False show ?thesis
        by (cases "try_body h (get_item g (ipx s) (ipy s)) s")
          (simp_all add: fetch_step_def process_char_def split: ret.split)
    qed
  qed
qed

lemma run_stopped_iff:
  assumes "\<not> continues r" and "0 \<le> steps"
  shows "run hs steps s = Some r \<longleftrightarrow>
     (\<exists>k s1. (steps = 0 \<or> k < nat steps) \<and> steps_ok hs k s = Some s1 \<and> fetch_step (hs k) s1 = r)"
proof (cases "steps = 0")
  case True
  with assms(1) show ?thesis using run_while_iff [of hs s r] by (simp add: run_def)
next
  case False
  with assms(2) have "0 < steps" by simp
  with assms(1) show ?thesis using run_for_stopped [of r hs "nat steps" s] by (simp add: run_def)
qed

text \<open>
  Claim C3, as the code has it. \<open>run(steps)\<close> raises \<open>ValueError\<close> (the spec's
  \<open>InvalidArgument\<close>) exactly when \<open>steps < 0\<close>. For \<open>steps > 0\<close> it returns \<open>True\<close>,
  with the state after \<open>steps\<close> cells, exactly when every one of these passes returned
  \<open>True\<close>; for \<open>steps = 0\<close> it never returns \<open>True\<close>. For \<open>steps \<ge> 0\<close> it returns
  \<open>False\<close> exactly when, after some number of continuing passes (fewer than \<open>steps\<close>
  when \<open>steps > 0\<close>), a pass in normal mode either is on an \<open>@\<close> cell (the halt: the
  state is returned as it is) or has the body of its \<open>try\<close> raise (the fault is caught
  and the state it left is returned). And it returns neither, an exception leaving
  \<open>run\<close>, exactly when after such passes no program is loaded (\<open>AttributeError\<close>) or
  the machine is in string mode on an empty cell (\<open>TypeError\<close>).
\<close>

theorem run_outcomes:
  "((\<exists>s'. run hs steps s = Some (Propagated ValueError s')) \<longleftrightarrow> steps < 0)
   \<and> (0 < steps \<longrightarrow>
        (run hs steps s = Some (Result True s') \<longleftrightarrow> steps_ok hs (nat steps) s = Some s'))
   \<and> (steps = 0 \<longrightarrow> run hs steps s \<noteq> Some (Result True s'))
   \<and> (0 \<le> steps \<longrightarrow>
        (run hs steps s = Some (Result False s') \<longleftrightarrow>
           (\<exists>k s1 g. (steps = 0 \<or> k < nat steps) \<and> steps_ok hs k s = Some s1
              \<and> program s1 = Some g \<and> \<not> string_mode s1 \<and> \<not> ignore_mode s1
              \<and> (get_item g (ipx s1) (ipy s1) = Some (code_point CHR ''@'') \<and> s' = s1
                  \<or> (\<exists>e. try_body (hs k) (get_item g (ipx s1) (ipy s1)) s1 = Raised e s')))))
   \<and> (0 \<le> steps \<longrightarrow>
        (run hs steps s = Some (Propagated e s') \<longleftrightarrow>
           (\<exists>k. (steps = 0 \<or> k < nat steps) \<and> steps_ok hs k s = Some s'
              \<and> (program s' = None \<and> e = AttributeError
                  \<or> (\<exists>g. program s' = Some g \<and> string_mode s'
                        \<and> get_item g (ipx s') (ipy s') = None \<and> e = TypeError)))))"
proof -
  have neg: "(\<exists>s'. run hs steps s = Some (Propagated ValueError s')) \<longleftrightarrow> steps < 0"
  proof (cases "steps < 0")
    case True
    then show ?thesis by (simp add: run_def)
  next
    case False
    then have "run hs steps s \<noteq> Some (Propagated ValueError s')" for s'
      using run_stopped_iff [of "Propagated ValueError s'" steps hs s] fetch_step_no_ValueError
      by simp
    with False show ?thesis by simp
  qed
  have pos: "0 < steps \<longrightarrow>
        (run hs steps s = Some (Result True s') \<longleftrightarrow> steps_ok hs (nat steps) s = Some s')"
    using run_for_True [of hs "nat steps" s s'] by (simp add: run_def)
  have zero: "steps = 0 \<longrightarrow> run hs steps s \<noteq> Some (Result True s')"
    using run_while_iff [of hs s "Result True s'"] by (simp add: run_def)
  have halt: "run hs steps s = Some (Result False s') \<longleftrightarrow>
           (\<exists>k s1 g. (steps = 0 \<or> k < nat steps) \<and> steps_ok hs k s = Some s1
              \<and> program s1 = Some g \<and> \<not> string_mode s1 \<and> \<not> ignore_mode s1
              \<and> (get_item g (ipx s1) (ipy s1) = Some (code_point CHR ''@'') \<and> s' = s1
                  \<or> (\<exists>e. try_body (hs k) (get_item g (ipx s1) (ipy s1)) s1 = Raised e s')))"
    if "0 \<le> steps"
    unfolding run_stopped_iff [of "Result False s'" steps hs s, simplified, OF that]
      fetch_step_False_iff
    by blast
  have raised: "run hs steps s = Some (Propagated e s') \<longleftrightarrow>
           (\<exists>k. (steps = 0 \<or> k < nat steps) \<and> steps_ok hs k s = Some s'
              \<and> (program s' = None \<and> e = AttributeError
                  \<or> (\<exists>g. program s' = Some g \<and> string_mode s'
                        \<and> get_item g (ipx s') (ipy s') = None \<and> e = TypeError)))"
    if "0 \<le> steps"
    unfolding run_stopped_iff [of "Propagated e s'" steps hs s, simplified, OF that]
      fetch_step_Propagated_iff
    by blast
  from neg pos zero halt raised show ?thesis by blast
qed

theorem run_outcomes_witness:
  "run (\<lambda>_. quiet_host) 1 (fresh [row_of ''34+N@'']) =
     Some (Result True ((fresh [row_of ''34+N@''])\<lparr>stack := [3], ipx := 1\<rparr>))
   \<and> run (\<lambda>_. quiet_host) 1 (fresh [row_of ''@'']) = Some (Result False (fresh [row_of ''@'']))
   \<and> run (\<lambda>_. quiet_host) 0 (fresh [row_of ''@'']) = Some (Result False (fresh [row_of ''@'']))
   \<and> (\<exists>s'. run (\<lambda>_. quiet_host) (- 1) (fresh [row_of ''@'']) = Some (Propagated ValueError s'))"
proof -
  have a: "run (\<lambda>_. quiet_host) 1 (fresh [row_of ''34+N@'']) =
     Some (Result True ((fresh [row_of ''34+N@''])\<lparr>stack := [3], ipx := 1\<rparr>))"
    using run_outcomes [where hs = "\<lambda>_. quiet_host" and steps = 1 and s = "fresh [row_of ''34+N@'']"
        and s' = "(fresh [row_of ''34+N@''])\<lparr>stack := [3], ipx := 1\<rparr>"]
    by (simp add: fetch_digit_example)
  have cell: "get_item [row_of ''@''] 0 0 = Some (code_point CHR ''@'')"
    by (simp add: get_item_def row_of_def)
  have st: "steps_ok (\<lambda>_. quiet_host) 0 (fresh [row_of ''@'']) = Some (fresh [row_of ''@''])"
    by simp
  have here: "\<exists>k s1 g. (steps = 0 \<or> k < nat steps)
        \<and> steps_ok (\<lambda>_. quiet_host) k (fresh [row_of ''@'']) = Some s1
        \<and> program s1 = Some g \<and> \<not> string_mode s1 \<and> \<not> ignore_mode s1
        \<and> (get_item g (ipx s1) (ipy s1) = Some (code_point CHR ''@'') \<and> fresh [row_of ''@''] = s1
            \<or> (\<exists>e. try_body quiet_host (get_item g (ipx s1) (ipy s1)) s1 =
                   Raised e (fresh [row_of ''@''])))"
    if "steps = 0 \<or> steps = 1" for steps :: int
  proof -
    have "(steps = 0 \<or> 0 < nat steps)
        \<and> steps_ok (\<lambda>_. quiet_host) 0 (fresh [row_of ''@'']) = Some (fresh [row_of ''@''])
        \<and> program (fresh [row_of ''@'']) = Some [row_of ''@'']
        \<and> \<not> string_mode (fresh [row_of ''@'']) \<and> \<not> ignore_mode (fresh [row_of ''@''])
        \<and> get_item [row_of ''@''] (ipx (fresh [row_of ''@''])) (ipy (fresh [row_of ''@''])) =
            Some (code_point CHR ''@'')"
      using that cell by (auto simp: fresh_def Interpreter_init_def)
    then show ?thesis by blast
  qed
  have b: "run (\<lambda>_. quiet_host) 1 (fresh [row_of ''@'']) = Some (Result False (fresh [row_of ''@'']))"
    using run_outcomes [where hs = "\<lambda>_. quiet_host" and steps = 1 and s = "fresh [row_of ''@'']"
        and s' = "fresh [row_of ''@'']"] here [of 1]
    by simp
  have c: "run (\<lambda>_. quiet_host) 0 (fresh [row_of ''@'']) = Some (Result False (fresh [row_of ''@'']))"
    using run_outcomes [where hs = "\<lambda>_. quiet_host" and steps = 0 and s = "fresh [row_of ''@'']"
        and s' = "fresh [row_of ''@'']"] here [of 0]
    by simp
  have d: "\<exists>s'. run (\<lambda>_. quiet_host) (- 1) (fresh [row_of ''@'']) = Some (Propagated ValueError s')"
    using run_outcomes [where hs = "\<lambda>_. quiet_host" and steps = "- 1" and s = "fresh [row_of ''@'']"]
    by simp
  from a b c d show ?thesis by blast
qed

text \<open>
  Two runs that the contract as the spec words it excludes. The program \<open>01-W@\<close>
  pushes \<open>-1\<close> and reaches \<open>W\<close>, whose \<open>time.sleep(-1)\<close> raises \<open>ValueError\<close>:
  \<open>run(4)\<close> returns \<open>False\<close> on the \<open>W\<close> cell although no \<open>@\<close> was executed. The
  program made of one double quote enters string mode and leaves the grid: \<open>run(2)\<close>
  raises \<open>TypeError\<close> and returns neither \<open>True\<close> nor \<open>False\<close>.
\<close>

lemma lookup_W: "ops_lookup (code_point CHR ''W'') = Some op_wait"
  by (simp add: ops_lookup_def ops_def code_point_def)

theorem run_contract_counterexample:
  "run (\<lambda>_. quiet_host) 4 (fresh [row_of ''01-W@'']) =
     Some (Result False ((fresh [row_of ''01-W@''])\<lparr>ipx := 3\<rparr>))
   \<and> get_item [row_of ''01-W@''] 3 0 = Some (code_point CHR ''W'')
   \<and> run (\<lambda>_. quiet_host) 2 (fresh [row_of [CHR 0x22]]) =
     Some (Propagated TypeError ((fresh [row_of [CHR 0x22]])\<lparr>string_mode := True, ipx := 1\<rparr>))"
  by (simp add: run_def run_for_unfold fresh_def row_of_def Interpreter_init_def fetch_step_def
      get_item_def process_char_def try_body_def isdigit_def digit_class_of_def
      lookup_sub [unfolded code_point_def, simplified] lookup_W [unfolded code_point_def, simplified]
      ops_lookup_def ops_def
      code_point_def push_def move_def op_sub_def op_wait_def op_quote_def pop_def)

subsection \<open>\<open>reset\<close> and the snapshot\<close>

text \<open>
  Claim C2, as the code has it. \<open>reset\<close> rebinds the stacks, the output, the heap, the
  two modes, the input pointer, the position and the direction, and nothing else: the
  program, the input and the callback stay. The snapshot after \<open>reset\<close> is therefore
  the snapshot of a newly constructed interpreter in every field but two: \<open>input\<close>,
  which keeps its value, and \<open>character\<close>, which is the cell at \<open>(0, 0)\<close> of the grid
  as it is at that moment (the empty string when no program is loaded), while a newly
  constructed interpreter has no program and reports the empty string. Stated against
  a new interpreter into which the current grid is put, only \<open>input\<close> differs.
\<close>

theorem reset_snapshot:
  "get_information (reset s) =
     (get_information (Interpreter_init inp cb))
       \<lparr>snap_character := (case program s of None \<Rightarrow> None | Some g \<Rightarrow> get_item g 0 0),
        snap_input := input_str s\<rparr>
   \<and> get_information (reset s) =
     (get_information ((Interpreter_init inp cb)\<lparr>program := program s\<rparr>))
       \<lparr>snap_input := input_str s\<rparr>"
proof -
  have a: "get_current_char (reset s) =
      (case program s of None \<Rightarrow> None | Some g \<Rightarrow> get_item g 0 0)"
    by (auto simp: get_current_char_def reset_def grid_len_def rows_def cols_def get_item_def
        split: option.split)
  have b: "get_current_char ((Interpreter_init inp cb)\<lparr>program := program s\<rparr>) =
      (case program s of None \<Rightarrow> None | Some g \<Rightarrow> get_item g 0 0)"
    by (auto simp: get_current_char_def Interpreter_init_def grid_len_def rows_def cols_def
        get_item_def split: option.split)
  have "get_information (reset s) =
     (get_information (Interpreter_init inp cb))
       \<lparr>snap_character := (case program s of None \<Rightarrow> None | Some g \<Rightarrow> get_item g 0 0),
        snap_input := input_str s\<rparr>"
    using a by (simp add: get_information_def get_output_def) (simp add: reset_def Interpreter_init_def)
  moreover have "get_information (reset s) =
     (get_information ((Interpreter_init inp cb)\<lparr>program := program s\<rparr>))
       \<lparr>snap_input := input_str s\<rparr>"
    using a b by (simp add: get_information_def get_output_def) (simp add: reset_def Interpreter_init_def)
  ultimately show ?thesis by (rule conjI)
qed

text \<open>
  The field \<open>character\<close> is not the one of a new interpreter. After \<open>reset\<close> of an
  interpreter holding \<open>34+N@\<close> it is \<open>3\<close>, where a new interpreter reports the empty
  string. The grid is not restored either: \<open>900p@\<close> writes \<open>chr(9)\<close> over its own
  first cell, and after four steps and \<open>reset\<close> the field is \<open>chr(9)\<close>, where an
  interpreter into which \<open>900p@\<close> has just been loaded reports \<open>9\<close>.
\<close>

lemma lookup_p: "ops_lookup (code_point CHR ''p'') = Some op_grid_put"
  by (simp add: ops_lookup_def ops_def code_point_def)

theorem reset_snapshot_counterexample:
  "snap_character (get_information (reset (fresh [row_of ''34+N@'']))) = Some (code_point CHR ''3'')
   \<and> snap_character (get_information (Interpreter_init None CbNone)) = None
   \<and> snap_character (get_information (reset (state_of
         (run_for (\<lambda>_. quiet_host) 0 4 (fresh [row_of ''900p@'']))))) = Some 9
   \<and> snap_character (get_information (fresh [row_of ''900p@''])) = Some (code_point CHR ''9'')"
proof -
  have run4: "run_for (\<lambda>_. quiet_host) 0 4 (fresh [row_of ''900p@'']) =
      Result True ((fresh [[Some 9, Some 48, Some 48, Some 112, Some 64]])\<lparr>ipx := 4\<rparr>)"
    by (simp add: run_for_unfold fresh_def row_of_def Interpreter_init_def fetch_step_def
        get_item_def process_char_def try_body_def isdigit_def digit_class_of_def
        lookup_p [unfolded code_point_def, simplified]
        code_point_def push_def move_def op_grid_put_def pop_def
        py_chr_def set_item_def ensure_size_def store_cell_def)
  show ?thesis
    unfolding run4
    by (simp add: get_information_def get_current_char_def reset_def fresh_def Interpreter_init_def
        grid_len_def rows_def cols_def get_item_def row_of_def code_point_def)
qed

subsection \<open>Writing a cell and reading it back\<close>

text \<open>
  Every grid that \<open>GridMap\<close> builds is rectangular, and \<open>set_item\<close> keeps it so.
\<close>

lemma rect_iff: "rect g \<longleftrightarrow> (\<exists>n. \<forall>row \<in> set g. length row = n)"
proof
  assume "rect g"
  then show "\<exists>n. \<forall>row \<in> set g. length row = n" unfolding rect_def by blast
next
  assume "\<exists>n. \<forall>row \<in> set g. length row = n"
  then obtain n where n: "\<forall>row \<in> set g. length row = n" by blast
  show "rect g"
  proof (cases g)
    case Nil
    then show ?thesis by (simp add: rect_def)
  next
    case (Cons r rs)
    with n have "cols g = n" by (simp add: cols_def rows_def)
    with n show ?thesis unfolding rect_def by simp
  qed
qed

lemma GridMap_init_rect: "rect (GridMap_init lines)"
proof -
  define raw where "raw = map rstrip_nl lines"
  define n where "n = (if raw = [] then 0 else Max (set (map length raw)))"
  have g: "GridMap_init lines = map (\<lambda>row. map Some row @ replicate (n - length row) None) raw"
    by (simp add: GridMap_init_def Let_def raw_def n_def)
  have le: "length r \<le> n" if "r \<in> set raw" for r
  proof -
    from that have ne: "raw \<noteq> []" by auto
    from that have "length r \<in> set (map length raw)" by simp
    then have "length r \<le> Max (set (map length raw))" by (intro Max_ge) auto
    with ne show ?thesis by (simp add: n_def)
  qed
  have "length row = n" if "row \<in> set (GridMap_init lines)" for row
  proof -
    from that obtain r where "r \<in> set raw" "row = map Some r @ replicate (n - length r) None"
      unfolding g by auto
    with le [of r] show ?thesis by simp
  qed
  then show ?thesis unfolding rect_iff by blast
qed

lemma ensure_size_rect:
  assumes "rect g"
  shows "rect (ensure_size w h g)"
proof -
  define cw where "cw = (if int (length g) > 0 then length (g ! 0) else 0)"
  define g1 where "g1 = (if h > int (length g)
      then g @ replicate (nat (h - int (length g))) (replicate cw None) else g)"
  define g2 where "g2 = (if w > int cw
      then map (\<lambda>row. row @ replicate (nat (w - int (length row))) None) g1 else g1)"
  have e: "ensure_size w h g = g2"
    by (simp add: ensure_size_def Let_def g2_def g1_def cw_def)
  have rows_g: "length row = cw" if "row \<in> set g" for row
  proof -
    from that have "g \<noteq> []" by auto
    then have "cols g = cw" by (simp add: cols_def rows_def cw_def)
    moreover from assms that have "length row = cols g" unfolding rect_def by blast
    ultimately show ?thesis by simp
  qed
  have rows_g1: "length row = cw" if "row \<in> set g1" for row
  proof (cases "h > int (length g)")
    case True
    with that have "row \<in> set g \<or> row = replicate cw None"
      by (auto simp: g1_def)
    with rows_g show ?thesis by auto
  next
    case False
    with that have "row \<in> set g" by (simp add: g1_def)
    with rows_g show ?thesis by simp
  qed
  have "\<exists>n. \<forall>row \<in> set g2. length row = n"
  proof (cases "w > int cw")
    case True
    have "length row = nat w" if "row \<in> set g2" for row
    proof -
      from that True obtain r where r: "r \<in> set g1"
          "row = r @ replicate (nat (w - int (length r))) None"
        by (auto simp: g2_def)
      from rows_g1 [OF r(1)] r(2) True show ?thesis by simp
    qed
    then show ?thesis by blast
  next
    case False
    then have "g2 = g1" by (simp add: g2_def)
    with rows_g1 show ?thesis by blast
  qed
  then show ?thesis unfolding e rect_iff .
qed

lemma set_item_rect:
  assumes "rect g" and "set_item g x y v = Inr g'"
  shows "rect g'"
proof (cases "x < 0 \<or> y < 0")
  case True
  with assms show ?thesis by (simp add: set_item_def)
next
  case False
  let ?g2 = "ensure_size (x + 1) (y + 1) g"
  from ensure_size_rect [OF assms(1)] obtain n where n: "\<forall>row \<in> set ?g2. length row = n"
    unfolding rect_iff by blast
  from False assms(2)
  have "(if nat y < length ?g2 \<and> nat x < length (?g2 ! nat y)
         then Inr (?g2[nat y := (?g2 ! nat y)[nat x := v]]) else Inl IndexError) = Inr g'"
    by (simp add: set_item_def store_cell_def split: if_splits)
  then have g': "g' = ?g2[nat y := (?g2 ! nat y)[nat x := v]]" "nat y < length ?g2"
    by (simp_all split: if_splits)
  have "length row = n" if "row \<in> set g'" for row
  proof -
    have "set g' \<subseteq> insert ((?g2 ! nat y)[nat x := v]) (set ?g2)"
      unfolding g'(1) by (rule set_update_subset_insert)
    with that have "row = (?g2 ! nat y)[nat x := v] \<or> row \<in> set ?g2" by blast
    moreover from g'(2) have "?g2 ! nat y \<in> set ?g2" by (rule nth_mem)
    with n have "length (?g2 ! nat y) = n" by blast
    then have "length ((?g2 ! nat y)[nat x := v]) = n" by simp
    ultimately show ?thesis using n by blast
  qed
  then show ?thesis unfolding rect_iff by blast
qed







end
